theory Spec2Isabelle
  imports Main "HOL-Library.List_Lexorder" "HOL-Library.Char_ord"
begin

section \<open>JSON values and the canonicalizer\<close>

text \<open>
  The locale documents handled by the rebuild pipeline are values of the TypeScript type
  \<^verbatim>\<open>JSONValue\<close>. An object is kept as the list of its entries in insertion order, because
  the order in which the entries are visited is exactly what canonicalization is about.
  JavaScript numbers are IEEE-754 doubles; the model leaves the number type \<open>'n\<close> open, since
  no operation of the manager inspects a number.
\<close>

datatype 'n json =
    JNull
  | JBool bool
  | JNumber 'n
  | JString string
  | JArray "'n json list"
  | JObject "(string \<times> 'n json) list"

text \<open>
  Modelled from the spec: \<^verbatim>\<open>canonicalize\<close> is imported by \<^verbatim>\<open>rebuild-manager.ts\<close> from
  \<^verbatim>\<open>../utils\<close>, a file that is not part of the sources at hand. The definition follows
  section 4.1 of the specification: a mapping becomes a new mapping with the same key/value
  pairs, keys visited in sorted order and every value canonicalized; a sequence keeps its
  length and its element order, every element canonicalized; a scalar is returned unchanged.
  Keys are compared as strings, lexicographically by character code.
\<close>

fun canonicalize :: "'n json \<Rightarrow> 'n json" where
  "canonicalize (JArray vs) = JArray (map canonicalize vs)"
| "canonicalize (JObject kvs) =
     JObject (sort_key fst (map (\<lambda>(k, v). (k, canonicalize v)) kvs))"
| "canonicalize v = v"

text \<open>
  A JavaScript object holds every key at most once. \<open>well_formed\<close> states this for the
  entry lists of the model, at every nesting level.
\<close>

fun well_formed :: "'n json \<Rightarrow> bool" where
  "well_formed (JArray vs) = list_all well_formed vs"
| "well_formed (JObject kvs) =
     (distinct (map fst kvs) \<and> list_all (\<lambda>(k, v). well_formed v) kvs)"
| "well_formed v = True"

text \<open>
  Equality as unordered trees: scalars are equal, sequences agree position by position, and
  two mappings have the same number of entries and every entry of the first has an entry of
  the second with the same key and an equal value, whatever the insertion order.
\<close>

fun unordered_eq :: "'n json \<Rightarrow> 'n json \<Rightarrow> bool" where
  "unordered_eq (JArray xs) (JArray ys) = list_all2 unordered_eq xs ys"
| "unordered_eq (JObject xs) (JObject ys) =
     (length xs = length ys \<and>
      list_all (\<lambda>(k, v). list_ex (\<lambda>(k', v'). k = k' \<and> unordered_eq v v') ys) xs)"
| "unordered_eq JNull JNull = True"
| "unordered_eq (JBool a) (JBool b) = (a = b)"
| "unordered_eq (JNumber a) (JNumber b) = (a = b)"
| "unordered_eq (JString a) (JString b) = (a = b)"
| "unordered_eq _ _ = False"

subsection \<open>The order in which the runtime enumerates the keys of an object\<close>

text \<open>
  \<^verbatim>\<open>Object.keys\<close> and \<^verbatim>\<open>JSON.stringify\<close> visit the own properties of an object in the order
  of ECMAScript's \<^verbatim>\<open>OrdinaryOwnPropertyKeys\<close>: first the keys that are array indices, in
  ascending numeric order, then the other string keys in the order in which they were
  created. An array index is the decimal numeral, without leading zero, of a number below
  \<open>2\<^sup>3\<^sup>2 - 1\<close>.
\<close>

definition is_digit :: "char \<Rightarrow> bool" where
  "is_digit c = (CHR ''0'' \<le> c \<and> c \<le> CHR ''9'')"

definition digit_value :: "char \<Rightarrow> nat" where
  "digit_value c = of_char c - 48"

definition nat_of_digits :: "string \<Rightarrow> nat" where
  "nat_of_digits s = foldl (\<lambda>n c. 10 * n + digit_value c) 0 s"

definition array_index :: "string \<Rightarrow> nat option" where
  "array_index s =
     (if s \<noteq> [] \<and> list_all is_digit s \<and> (s = ''0'' \<or> hd s \<noteq> CHR ''0'') \<and>
         nat_of_digits s < 4294967295
      then Some (nat_of_digits s) else None)"

definition property_order :: "(string \<times> 'a) list \<Rightarrow> (string \<times> 'a) list" where
  "property_order kvs =
     sort_key (\<lambda>(k, v). case array_index k of None \<Rightarrow> 0 | Some i \<Rightarrow> i)
       (filter (\<lambda>(k, v). array_index k \<noteq> None) kvs) @
     filter (\<lambda>(k, v). array_index k = None) kvs"

text \<open>\<^verbatim>\<open>Object.keys\<close> of a document; the manager only applies it to a mapping.\<close>

fun Object_keys :: "'n json \<Rightarrow> string list" where
  "Object_keys (JObject kvs) = map fst (property_order kvs)"
| "Object_keys v = []"

section \<open>The host: module nodes, environments, collaborators\<close>

text \<open>
  An \<^verbatim>\<open>EnvironmentModuleNode\<close> carries an identifier that may be \<^verbatim>\<open>null\<close>, a URL and a type.
\<close>

record module_node =
  mod_id :: "string option"
  mod_url :: string
  mod_type :: string

datatype vite_dev_server = ViteDevServer

datatype js_error = JsError string

datatype hot_payload = FullReload

text \<open>
  The manager reaches into a \<^verbatim>\<open>DevEnvironment\<close> only through the optional chains
  \<^verbatim>\<open>environment?.moduleGraph?.invalidateAll()\<close> and \<^verbatim>\<open>environment?.hot?.send(...)\<close>. Each of
  the two capabilities may be absent; where it is present, its method is given by what a
  call of it does: it returns (\<open>None\<close>) or it throws, or rejects, with an error.
\<close>

record module_graph =
  invalidateAll :: "js_error option"

record hot_channel =
  send :: "hot_payload \<Rightarrow> js_error option"

record dev_environment =
  env_name :: string
  moduleGraph :: "module_graph option"
  hot :: "hot_channel option"

record read_stats =
  filesRead :: nat
  totalFiles :: nat

record generation_result =
  filesWritten :: nat
  gen_totalFiles :: nat
  filesList :: "string list"

record 'n rebuild_cache =
  cache_modules :: "module_node list option"
  cache_grouped :: "'n json"
  cache_jsonText :: string

record 'n rebuild_result =
  modules :: "module_node list"
  grouped :: "'n json"
  jsonText :: string

text \<open>
  One constructor for each log statement of the source, with the data the message
  interpolates. The durations measured with \<^verbatim>\<open>performance.now()\<close> are left out.
\<close>

datatype log_msg =
    ReadGroupMsg read_stats
  | GeneratedMsg generation_result
  | RebuildCompleteMsg string "string list"
  | NotFoundMsg bool bool
  | ReloadMsg string "module_node list"
  | ModuleNotFoundMsg string

text \<open>A Vite \<^verbatim>\<open>Logger\<close>, as far as the manager uses it: each method returns or throws.\<close>

record logger_obj =
  info :: "log_msg \<Rightarrow> js_error option"
  warn :: "log_msg \<Rightarrow> js_error option"

text \<open>
  Everything the manager does to the outside world is recorded, in order, as a trace of
  events: the calls of the two collaborators, the invalidation of the module graph, the
  message on the hot channel, the log calls, the completion callback, and a promise
  rejection that nobody handles.
\<close>

datatype 'n event =
    ReadAndGroup
  | GenerateFiles "'n json" string
  | InvalidateAll
  | HotSend hot_payload
  | LogInfo log_msg
  | LogWarn log_msg
  | RebuildComplete "'n rebuild_cache"
  | UnhandledRejection js_error

datatype 'n promise =
    Pending
  | Fulfilled "'n rebuild_result"
  | Rejected js_error

text \<open>
  \<^verbatim>\<open>RebuildManagerOptions\<close>. The two collaborators are external and stateful (they read and
  write the file system), so each is a function on an open state \<open>'fs\<close> that returns either
  the error it throws or its result, together with the new state. The logger and the
  completion callback are optional; the callback, like the methods of the logger, returns
  or throws.
\<close>

record ('n, 'fs) options =
  fileManager :: "'fs \<Rightarrow> (js_error + (string \<times> 'n json) list \<times> read_stats) \<times> 'fs"
  generationCoordinator :: "'n json \<Rightarrow> string \<Rightarrow> 'fs \<Rightarrow> (js_error + generation_result) \<times> 'fs"
  root :: string
  logger :: "logger_obj option"
  onRebuildComplete :: "('n rebuild_cache \<Rightarrow> js_error option) option"

text \<open>
  A timer armed by \<^verbatim>\<open>setTimeout\<close>: its handle, the time at which it is due, and what its
  callback has captured (the reason, the modules and the \<^verbatim>\<open>resolve\<close> function of the promise
  created by the same call).
\<close>

record timer =
  handle :: nat
  due :: int
  timer_reason :: string
  timer_modules :: "module_node list"
  timer_promise :: nat

section \<open>The rebuild manager\<close>

text \<open>The private fields of class \<^verbatim>\<open>RebuildManager\<close>.\<close>

record manager =
  rebuildTimer :: "nat option"
  lastRebuildCall :: int
  serverRef :: "vite_dev_server option"
  resolvedVirtualId :: "string option"
  environment :: "dev_environment option"

text \<open>
  The manager together with the part of the JavaScript host it acts on: the state of the
  collaborators, the timers that are armed, the promises handed out so far, and the trace.
\<close>

record ('n, 'fs) world = manager +
  fs :: 'fs
  timers :: "timer list"
  next_handle :: nat
  promises :: "'n promise list"
  trace :: "'n event list"

definition DEBOUNCE_MS :: int where
  "DEBOUNCE_MS = 300"

definition MAX_WAIT_MS :: int where
  "MAX_WAIT_MS = 2000"

definition new_RebuildManager :: "'fs \<Rightarrow> ('n, 'fs) world" where
  "new_RebuildManager s =
     \<lparr>rebuildTimer = None, lastRebuildCall = 0, serverRef = None, resolvedVirtualId = None,
      environment = None, fs = s, timers = [], next_handle = 1, promises = [], trace = []\<rparr>"

definition setServer :: "vite_dev_server \<Rightarrow> string \<Rightarrow> ('n, 'fs) world \<Rightarrow> ('n, 'fs) world" where
  "setServer server vid w = w\<lparr>serverRef := Some server, resolvedVirtualId := Some vid\<rparr>"

definition setEnv :: "dev_environment \<Rightarrow> ('n, 'fs) world \<Rightarrow> ('n, 'fs) world" where
  "setEnv env w = w\<lparr>environment := Some env\<rparr>"

definition emit :: "'n event list \<Rightarrow> ('n, 'fs) world \<Rightarrow> ('n, 'fs) world" where
  "emit es w = w\<lparr>trace := trace w @ es\<rparr>"

subsection \<open>Calls that may throw\<close>

text \<open>
  The source has no \<^verbatim>\<open>try\<close>: when a call of the logger, of the host or of the completion
  callback throws, the function that makes the call ends there with that error. A call is
  the event it leaves in the trace together with its outcome. Of a sequence of calls made
  one after the other, \<open>performed\<close> lists those that are made, up to and including the first
  that throws, and \<open>first_error\<close> is what that one throws.
\<close>

type_synonym 'n host_call = "'n event \<times> js_error option"

fun first_error :: "'n host_call list \<Rightarrow> js_error option" where
  "first_error [] = None"
| "first_error ((ev, outcome) # cs) =
     (case outcome of Some e \<Rightarrow> Some e | None \<Rightarrow> first_error cs)"

fun performed :: "'n host_call list \<Rightarrow> 'n event list" where
  "performed [] = []"
| "performed ((ev, outcome) # cs) =
     ev # (case outcome of Some e \<Rightarrow> [] | None \<Rightarrow> performed cs)"

text \<open>Make these calls, then return \<open>v\<close>.\<close>

definition returning :: "'n host_call list \<Rightarrow> 'a \<Rightarrow> (js_error + 'a) \<times> 'n event list" where
  "returning cs v = (case first_error cs of Some e \<Rightarrow> Inl e | None \<Rightarrow> Inr v, performed cs)"

text \<open>
  \<^verbatim>\<open>this.options.logger?.info(...)\<close> and \<^verbatim>\<open>this.options.logger?.warn(...)\<close>: the call is
  made only when a logger is configured.
\<close>

definition info_calls :: "('n, 'fs) options \<Rightarrow> log_msg \<Rightarrow> 'n host_call list" where
  "info_calls opts msg =
     (case logger opts of None \<Rightarrow> [] | Some l \<Rightarrow> [(LogInfo msg, info l msg)])"

definition warn_calls :: "('n, 'fs) options \<Rightarrow> log_msg \<Rightarrow> 'n host_call list" where
  "warn_calls opts msg =
     (case logger opts of None \<Rightarrow> [] | Some l \<Rightarrow> [(LogWarn msg, warn l msg)])"

text \<open>\<^verbatim>\<open>this.options.onRebuildComplete?.(cache)\<close>.\<close>

definition callback_calls :: "('n, 'fs) options \<Rightarrow> 'n rebuild_cache \<Rightarrow> 'n host_call list" where
  "callback_calls opts cache =
     (case onRebuildComplete opts of
        None \<Rightarrow> []
      | Some callback \<Rightarrow> [(RebuildComplete cache, callback cache)])"

text \<open>
  \<^verbatim>\<open>await this.environment?.moduleGraph?.invalidateAll()\<close> and
  \<^verbatim>\<open>this.environment?.hot?.send(payload)\<close>.
\<close>

definition invalidateAll_calls :: "dev_environment option \<Rightarrow> 'n host_call list" where
  "invalidateAll_calls environ =
     (case environ of
        None \<Rightarrow> []
      | Some env \<Rightarrow>
          (case moduleGraph env of None \<Rightarrow> [] | Some g \<Rightarrow> [(InvalidateAll, invalidateAll g)]))"

definition hot_send_calls :: "dev_environment option \<Rightarrow> hot_payload \<Rightarrow> 'n host_call list" where
  "hot_send_calls environ payload =
     (case environ of
        None \<Rightarrow> []
      | Some env \<Rightarrow>
          (case hot env of None \<Rightarrow> [] | Some h \<Rightarrow> [(HotSend payload, send h payload)]))"

subsection \<open>The methods\<close>

text \<open>\<^verbatim>\<open>String.prototype.includes\<close>: the second string occurs in the first.\<close>

fun string_includes :: "string \<Rightarrow> string \<Rightarrow> bool" where
  "string_includes [] t = (t = [])"
| "string_includes (c # cs) t = (take (length t) (c # cs) = t \<or> string_includes cs t)"

text \<open>
  JavaScript truthiness, where the source relies on it: an absent or empty string is falsy;
  an array is an object, and every object is truthy, the empty array included.
\<close>

definition falsy_string :: "string option \<Rightarrow> bool" where
  "falsy_string s = (s = None \<or> s = Some [])"

definition truthy_array :: "'a list \<Rightarrow> bool" where
  "truthy_array xs = True"

text \<open>
  \<^verbatim>\<open>invalidateModule\<close>. It changes no field of the manager; the result is what it returns or
  throws, together with the calls it has made. It returns \<open>None\<close> where the source returns
  \<^verbatim>\<open>undefined\<close>; \<open>filtered\<close> is the source's \<^verbatim>\<open>mod\<close>.
\<close>

definition invalidateModule ::
  "('n, 'fs) options \<Rightarrow> module_node list \<Rightarrow> ('n, 'fs) world
    \<Rightarrow> (js_error + module_node list option) \<times> 'n event list" where
  "invalidateModule opts ms w =
     (if serverRef w = None \<or> falsy_string (resolvedVirtualId w) then
        returning
          (warn_calls opts
             (NotFoundMsg (serverRef w \<noteq> None) (\<not> falsy_string (resolvedVirtualId w))))
          None
      else
        let vid = (case resolvedVirtualId w of None \<Rightarrow> '' '' | Some v \<Rightarrow> v);
            filtered = filter (\<lambda>m. case mod_id m of None \<Rightarrow> False
                                   | Some i \<Rightarrow> string_includes i vid) ms
        in if truthy_array filtered then
             returning
               (invalidateAll_calls (environment w) @
                hot_send_calls (environment w) FullReload @
                info_calls opts (ReloadMsg vid filtered))
               (Some filtered)
           else
             returning (warn_calls opts (ModuleNotFoundMsg vid)) (Some filtered))"

text \<open>What a run of the pipeline leaves in the world: a new collaborator state and its calls.\<close>

definition host_effect :: "('n, 'fs) world \<Rightarrow> 'fs \<Rightarrow> 'n event list \<Rightarrow> ('n, 'fs) world" where
  "host_effect w s es = w\<lparr>fs := s, trace := trace w @ es\<rparr>"

text \<open>
  \<^verbatim>\<open>rebuild\<close>. \<^verbatim>\<open>JSON.stringify\<close> belongs to the JavaScript runtime and is a parameter.
  Every \<^verbatim>\<open>await\<close> is sequential composition: a collaborator has returned or thrown before
  the next statement runs, and no other host event is handled in between. The statements
  follow the source: read and group, log, canonicalize and serialize, generate, log,
  invalidate, notify and log, return; each call that can throw ends the function.
\<close>

definition rebuild ::
  "('n json \<Rightarrow> string) \<Rightarrow> ('n, 'fs) options \<Rightarrow> string \<Rightarrow> module_node list
    \<Rightarrow> ('n, 'fs) world \<Rightarrow> (js_error + 'n rebuild_result) \<times> ('n, 'fs) world" where
  "rebuild JSON_stringify opts reason ms w =
     (case fileManager opts (fs w) of
        (Inl e, fs1) \<Rightarrow> (Inl e, host_effect w fs1 [ReadAndGroup])
      | (Inr (groupedRaw, stats), fs1) \<Rightarrow>
          let log1 = (if 0 < filesRead stats \<or> logger opts \<noteq> None
                      then info_calls opts (ReadGroupMsg stats) else []);
              read = [ReadAndGroup] @ performed log1
          in (case first_error log1 of
                Some e \<Rightarrow> (Inl e, host_effect w fs1 read)
              | None \<Rightarrow>
                  let groupedCache = canonicalize (JObject groupedRaw);
                      jsonTextCache = JSON_stringify groupedCache
                  in (case generationCoordinator opts groupedCache (root opts) fs1 of
                        (Inl e, fs2) \<Rightarrow>
                          (Inl e, host_effect w fs2
                                    (read @ [GenerateFiles groupedCache (root opts)]))
                      | (Inr generationResult, fs2) \<Rightarrow>
                          let log2 = info_calls opts (GeneratedMsg generationResult);
                              generated = read @ [GenerateFiles groupedCache (root opts)] @
                                          performed log2
                          in (case first_error log2 of
                                Some e \<Rightarrow> (Inl e, host_effect w fs2 generated)
                              | None \<Rightarrow>
                                  (case invalidateModule opts ms w of
                                     (Inl e, invalidated) \<Rightarrow>
                                       (Inl e, host_effect w fs2 (generated @ invalidated))
                                   | (Inr modulesResult, invalidated) \<Rightarrow>
                                       let notify =
                                             callback_calls opts
                                               \<lparr>cache_modules = modulesResult,
                                                cache_grouped = groupedCache,
                                                cache_jsonText = jsonTextCache\<rparr> @
                                             info_calls opts
                                               (RebuildCompleteMsg reason
                                                  (Object_keys groupedCache))
                                       in (case first_error notify of
                                             Some e \<Rightarrow> Inl e
                                           | None \<Rightarrow>
                                               Inr \<lparr>modules = (case modulesResult of
                                                                 None \<Rightarrow> [] | Some m \<Rightarrow> m),
                                                    grouped = groupedCache,
                                                    jsonText = jsonTextCache\<rparr>,
                                           host_effect w fs2
                                             (generated @ invalidated @
                                              performed notify)))))))"

text \<open>\<^verbatim>\<open>clearTimeout\<close>: the timer with this handle, if it is still armed, is disarmed.\<close>

definition clearTimeout :: "nat \<Rightarrow> ('n, 'fs) world \<Rightarrow> ('n, 'fs) world" where
  "clearTimeout h w = w\<lparr>timers := filter (\<lambda>t. handle t \<noteq> h) (timers w)\<rparr>"

text \<open>How the promise of an \<^verbatim>\<open>async\<close> function settles: rejected by a throw, fulfilled by a return.\<close>

definition settled :: "js_error + 'n rebuild_result \<Rightarrow> 'n promise" where
  "settled r = (case r of Inl e \<Rightarrow> Rejected e | Inr v \<Rightarrow> Fulfilled v)"

text \<open>
  \<^verbatim>\<open>debouncedRebuild\<close>, called when \<^verbatim>\<open>Date.now()\<close> is \<open>now\<close>. It returns the index of the
  promise it hands to its caller. A timer handle of Node is an object, hence truthy.
\<close>

definition debouncedRebuild ::
  "('n json \<Rightarrow> string) \<Rightarrow> ('n, 'fs) options \<Rightarrow> int \<Rightarrow> string \<Rightarrow> module_node list
    \<Rightarrow> ('n, 'fs) world \<Rightarrow> nat \<times> ('n, 'fs) world" where
  "debouncedRebuild JSON_stringify opts now reason ms w =
     (let w1 = (if lastRebuildCall w = 0 then w\<lparr>lastRebuildCall := now\<rparr> else w);
          w2 = (case rebuildTimer w1 of None \<Rightarrow> w1 | Some h \<Rightarrow> clearTimeout h w1)
      in if MAX_WAIT_MS \<le> now - lastRebuildCall w2 then
           let (r, w3) = rebuild JSON_stringify opts reason ms (w2\<lparr>lastRebuildCall := 0\<rparr>)
           in (length (promises w3), w3\<lparr>promises := promises w3 @ [settled r]\<rparr>)
         else
           let p = length (promises w2);
               h = next_handle w2
           in (p, w2\<lparr>promises := promises w2 @ [Pending],
                    timers := timers w2 @
                      [\<lparr>handle = h, due = now + DEBOUNCE_MS, timer_reason = reason,
                        timer_modules = ms, timer_promise = p\<rparr>],
                    next_handle := Suc h,
                    rebuildTimer := Some h\<rparr>))"

text \<open>
  The callback given to \<^verbatim>\<open>setTimeout\<close>. It is an \<^verbatim>\<open>async\<close> function whose own promise nobody
  awaits: when \<^verbatim>\<open>rebuild\<close> throws, \<^verbatim>\<open>resolve\<close> is never reached and the error is an unhandled
  rejection.
\<close>

definition timer_callback ::
  "('n json \<Rightarrow> string) \<Rightarrow> ('n, 'fs) options \<Rightarrow> timer \<Rightarrow> ('n, 'fs) world \<Rightarrow> ('n, 'fs) world" where
  "timer_callback JSON_stringify opts t w =
     (let (r, w1) = rebuild JSON_stringify opts (timer_reason t) (timer_modules t)
                      (w\<lparr>lastRebuildCall := 0\<rparr>)
      in case r of
           Inr v \<Rightarrow> w1\<lparr>promises := (promises w1)[timer_promise t := Fulfilled v]\<rparr>
         | Inl e \<Rightarrow> emit [UnhandledRejection e] w1)"

text \<open>
  The event loop up to time \<open>T\<close>: every armed timer that is due by then fires, earliest first.
  A callback neither arms nor clears a timer, so the due timers are taken off first.
\<close>

definition advance ::
  "('n json \<Rightarrow> string) \<Rightarrow> ('n, 'fs) options \<Rightarrow> int \<Rightarrow> ('n, 'fs) world \<Rightarrow> ('n, 'fs) world" where
  "advance JSON_stringify opts T w =
     fold (timer_callback JSON_stringify opts)
       (sort_key due (filter (\<lambda>t. due t \<le> T) (timers w)))
       (w\<lparr>timers := filter (\<lambda>t. \<not> due t \<le> T) (timers w)\<rparr>)"

text \<open>A call of \<^verbatim>\<open>debouncedRebuild\<close> by the host, at a given time.\<close>

record trigger =
  at :: int
  trigger_reason :: string
  trigger_modules :: "module_node list"

text \<open>
  A run of the host: the triggers are handled in order; before each one, the timers that
  are due by its time fire. The result lists the promise each caller received.
\<close>

fun simulate ::
  "('n json \<Rightarrow> string) \<Rightarrow> ('n, 'fs) options \<Rightarrow> trigger list \<Rightarrow> ('n, 'fs) world
    \<Rightarrow> nat list \<times> ('n, 'fs) world" where
  "simulate JSON_stringify opts [] w = ([], w)"
| "simulate JSON_stringify opts (tr # trs) w =
     (let (p, w1) = debouncedRebuild JSON_stringify opts (at tr) (trigger_reason tr)
                      (trigger_modules tr) (advance JSON_stringify opts (at tr) w);
          (ps, w2) = simulate JSON_stringify opts trs w1
      in (p # ps, w2))"

text \<open>The number of times the pipeline has been started: each run begins by calling \<^verbatim>\<open>readAndGroup\<close>.\<close>

definition pipeline_runs :: "('n, 'fs) world \<Rightarrow> nat" where
  "pipeline_runs w = length (filter (\<lambda>e. e = ReadAndGroup) (trace w))"

text \<open>No timer is armed and no debounce window is open.\<close>

definition idle :: "('n, 'fs) world \<Rightarrow> bool" where
  "idle w = (timers w = [] \<and> lastRebuildCall w = 0)"

text \<open>Every armed timer is the one the manager remembers in \<^verbatim>\<open>rebuildTimer\<close>.\<close>

definition timers_tracked :: "('n, 'fs) world \<Rightarrow> bool" where
  "timers_tracked w = list_all (\<lambda>t. rebuildTimer w = Some (handle t)) (timers w)"

subsection \<open>Vocabulary of the statements\<close>

text \<open>The events of a log call, when it is made.\<close>

definition info_events :: "('n, 'fs) options \<Rightarrow> log_msg \<Rightarrow> 'n event list" where
  "info_events opts msg = map fst (info_calls opts msg)"

definition warn_events :: "('n, 'fs) options \<Rightarrow> log_msg \<Rightarrow> 'n event list" where
  "warn_events opts msg = map fst (warn_calls opts msg)"

text \<open>The event of the completion callback, when one is configured.\<close>

definition callback_events :: "('n, 'fs) options \<Rightarrow> 'n rebuild_cache \<Rightarrow> 'n event list" where
  "callback_events opts cache = map fst (callback_calls opts cache)"

text \<open>The calls of the invalidation proper, as far as the environment offers them.\<close>

definition reload_events :: "('n, 'fs) world \<Rightarrow> 'n event list" where
  "reload_events w =
     map fst (invalidateAll_calls (environment w) @ hot_send_calls (environment w) FullReload)"

text \<open>
  The logger, the completion callback and the environment behave: none of their calls
  throws. Each holds, in particular, of a part that is not configured.
\<close>

definition logger_returns :: "('n, 'fs) options \<Rightarrow> bool" where
  "logger_returns opts =
     (case logger opts of
        None \<Rightarrow> True
      | Some l \<Rightarrow> (\<forall>msg. info l msg = None) \<and> (\<forall>msg. warn l msg = None))"

definition callback_returns :: "('n, 'fs) options \<Rightarrow> bool" where
  "callback_returns opts =
     (case onRebuildComplete opts of
        None \<Rightarrow> True
      | Some callback \<Rightarrow> (\<forall>cache. callback cache = None))"

definition environment_returns :: "('n, 'fs) world \<Rightarrow> bool" where
  "environment_returns w =
     (case environment w of
        None \<Rightarrow> True
      | Some env \<Rightarrow>
          (case moduleGraph env of None \<Rightarrow> True | Some g \<Rightarrow> invalidateAll g = None) \<and>
          (case hot env of None \<Rightarrow> True | Some h \<Rightarrow> send h FullReload = None))"

text \<open>
  What the manager reads from a world: \<^verbatim>\<open>invalidateModule\<close> reads the late-bound wiring,
  \<^verbatim>\<open>rebuild\<close> in addition the state of the collaborators. Two worlds that agree on these
  differ only in timers, promises, the debounce fields and the trace.
\<close>

definition same_wiring :: "('n, 'fs) world \<Rightarrow> ('n, 'fs) world \<Rightarrow> bool" where
  "same_wiring w w' =
     (serverRef w' = serverRef w \<and> resolvedVirtualId w' = resolvedVirtualId w \<and>
      environment w' = environment w)"

definition same_inputs :: "('n, 'fs) world \<Rightarrow> ('n, 'fs) world \<Rightarrow> bool" where
  "same_inputs w w' = (fs w' = fs w \<and> same_wiring w w')"

text \<open>
  One coalesced window: the calls arrive in order of time, each less than the debounce
  window after the one before it, so that no timer fires in between, and each less than
  the max-wait threshold after the first, so that none of them rebuilds at once.
\<close>

fun follows :: "int \<Rightarrow> int \<Rightarrow> trigger list \<Rightarrow> bool" where
  "follows start prev [] = True"
| "follows start prev (tr # trs) =
     (prev \<le> at tr \<and> at tr < prev + DEBOUNCE_MS \<and> at tr - start < MAX_WAIT_MS \<and>
      follows start (at tr) trs)"

definition coalesced :: "trigger list \<Rightarrow> bool" where
  "coalesced trs = (case trs of [] \<Rightarrow> False | tr # rest \<Rightarrow> follows (at tr) (at tr) rest)"

text \<open>
  A world while such a window is open: every armed timer is tracked and not due before
  \<open>prev + DEBOUNCE_MS\<close>, where \<open>prev\<close> is the time of the latest call, and the window, if the
  manager has recorded its start, started at \<open>start\<close> or later.
\<close>

definition in_window :: "int \<Rightarrow> int \<Rightarrow> ('n, 'fs) world \<Rightarrow> bool" where
  "in_window start prev w =
     (timers_tracked w \<and> list_all (\<lambda>t. prev + DEBOUNCE_MS \<le> due t) (timers w) \<and>
      (lastRebuildCall w = 0 \<or> start \<le> lastRebuildCall w))"

text \<open>
  The worlds the manager can be in: it is constructed, wired by the setters, called through
  \<^verbatim>\<open>debouncedRebuild\<close> or directly through \<^verbatim>\<open>rebuild\<close>, and time passes.
\<close>

inductive reachable ::
  "('n json \<Rightarrow> string) \<Rightarrow> ('n, 'fs) options \<Rightarrow> ('n, 'fs) world \<Rightarrow> bool"
  for JSON_stringify :: "'n json \<Rightarrow> string" and opts :: "('n, 'fs) options" where
  constructed: "reachable JSON_stringify opts (new_RebuildManager s)"
| server_set: "reachable JSON_stringify opts w
    \<Longrightarrow> reachable JSON_stringify opts (setServer server vid w)"
| env_set: "reachable JSON_stringify opts w
    \<Longrightarrow> reachable JSON_stringify opts (setEnv env w)"
| debounced: "reachable JSON_stringify opts w
    \<Longrightarrow> reachable JSON_stringify opts
          (snd (debouncedRebuild JSON_stringify opts now reason ms w))"
| rebuilt: "reachable JSON_stringify opts w
    \<Longrightarrow> reachable JSON_stringify opts (snd (rebuild JSON_stringify opts reason ms w))"
| time_passed: "reachable JSON_stringify opts w
    \<Longrightarrow> reachable JSON_stringify opts (advance JSON_stringify opts T w)"

section \<open>Concrete scenarios\<close>

text \<open>
  Collaborators, modules and worlds on which the theorems below are evaluated. The state of
  the collaborators is the number of reads made so far; the file manager returns one locale
  whose keys are not in order.
\<close>

definition demo_grouped :: "(string \<times> int json) list" where
  "demo_grouped =
     [(''en'', JObject [(''Greeting'', JObject [(''message'', JString ''Hi'')]),
                       (''Farewell'', JString ''Bye'')])]"

definition demo_canonical :: "int json" where
  "demo_canonical =
     JObject [(''en'', JObject [(''Farewell'', JString ''Bye''),
                               (''Greeting'', JObject [(''message'', JString ''Hi'')])])]"

definition demo_stats :: read_stats where
  "demo_stats = \<lparr>filesRead = 1, totalFiles = 1\<rparr>"

definition demo_generated :: generation_result where
  "demo_generated =
     \<lparr>filesWritten = 2, gen_totalFiles = 2,
      filesList = [''src/i18n/i18n.types.d.ts'', ''src/i18n/i18n.consts.ts'']\<rparr>"

definition demo_readAndGroup ::
  "nat \<Rightarrow> (js_error + (string \<times> int json) list \<times> read_stats) \<times> nat" where
  "demo_readAndGroup n = (Inr (demo_grouped, demo_stats), Suc n)"

definition demo_readAndGroup_failing ::
  "nat \<Rightarrow> (js_error + (string \<times> int json) list \<times> read_stats) \<times> nat" where
  "demo_readAndGroup_failing n = (Inl (JsError ''ENOENT''), Suc n)"

definition demo_generateFiles ::
  "int json \<Rightarrow> string \<Rightarrow> nat \<Rightarrow> (js_error + generation_result) \<times> nat" where
  "demo_generateFiles d r n = (Inr demo_generated, n)"

text \<open>A stand-in for \<^verbatim>\<open>JSON.stringify\<close>; no theorem depends on what it returns.\<close>

definition demo_stringify :: "int json \<Rightarrow> string" where
  "demo_stringify d = concat (Object_keys d)"

definition demo_logger :: logger_obj where
  "demo_logger = \<lparr>info = (\<lambda>msg. None), warn = (\<lambda>msg. None)\<rparr>"

definition demo_callback :: "int rebuild_cache \<Rightarrow> js_error option" where
  "demo_callback cache = None"

definition demo_options :: "(int, nat) options" where
  "demo_options =
     \<lparr>fileManager = demo_readAndGroup, generationCoordinator = demo_generateFiles,
      root = ''/app'', logger = Some demo_logger, onRebuildComplete = Some demo_callback\<rparr>"

definition demo_options_failing :: "(int, nat) options" where
  "demo_options_failing =
     \<lparr>fileManager = demo_readAndGroup_failing, generationCoordinator = demo_generateFiles,
      root = ''/app'', logger = Some demo_logger, onRebuildComplete = Some demo_callback\<rparr>"

text \<open>A logger whose \<^verbatim>\<open>warn\<close> throws, and a completion callback that throws.\<close>

definition demo_logger_throwing :: logger_obj where
  "demo_logger_throwing =
     \<lparr>info = (\<lambda>msg. None), warn = (\<lambda>msg. Some (JsError ''EPIPE''))\<rparr>"

definition demo_callback_throwing :: "int rebuild_cache \<Rightarrow> js_error option" where
  "demo_callback_throwing cache = Some (JsError ''listener failed'')"

definition demo_options_logger_throwing :: "(int, nat) options" where
  "demo_options_logger_throwing =
     \<lparr>fileManager = demo_readAndGroup, generationCoordinator = demo_generateFiles,
      root = ''/app'', logger = Some demo_logger_throwing, onRebuildComplete = Some demo_callback\<rparr>"

definition demo_options_silent_callback_throwing :: "(int, nat) options" where
  "demo_options_silent_callback_throwing =
     \<lparr>fileManager = demo_readAndGroup, generationCoordinator = demo_generateFiles,
      root = ''/app'', logger = None, onRebuildComplete = Some demo_callback_throwing\<rparr>"

definition demo_virtual_id :: string where
  "demo_virtual_id = ''virtual:vue-i18n-types''"

definition demo_module_virtual :: module_node where
  "demo_module_virtual =
     \<lparr>mod_id = Some ''virtual:vue-i18n-types/messages'', mod_url = ''/@id/virtual'',
      mod_type = ''js''\<rparr>"

definition demo_module_other :: module_node where
  "demo_module_other =
     \<lparr>mod_id = Some ''/app/src/locales/en.json'', mod_url = ''/src/locales/en.json'',
      mod_type = ''js''\<rparr>"

definition demo_environment :: dev_environment where
  "demo_environment =
     \<lparr>env_name = ''client'', moduleGraph = Some \<lparr>invalidateAll = None\<rparr>,
      hot = Some \<lparr>send = (\<lambda>payload. None)\<rparr>\<rparr>"

text \<open>An environment whose module graph rejects the invalidation.\<close>

definition demo_environment_failing :: dev_environment where
  "demo_environment_failing =
     \<lparr>env_name = ''client'',
      moduleGraph = Some \<lparr>invalidateAll = Some (JsError ''graph closed'')\<rparr>,
      hot = Some \<lparr>send = (\<lambda>payload. None)\<rparr>\<rparr>"

definition demo_unwired :: "(int, nat) world" where
  "demo_unwired = new_RebuildManager 0"

definition demo_server_only :: "(int, nat) world" where
  "demo_server_only = setServer ViteDevServer demo_virtual_id (new_RebuildManager 0)"

definition demo_wired :: "(int, nat) world" where
  "demo_wired = setEnv demo_environment (setServer ViteDevServer demo_virtual_id (new_RebuildManager 0))"

definition demo_wired_failing :: "(int, nat) world" where
  "demo_wired_failing =
     setEnv demo_environment_failing
       (setServer ViteDevServer demo_virtual_id (new_RebuildManager 0))"

definition demo_trigger :: "int \<Rightarrow> trigger" where
  "demo_trigger t = \<lparr>at = t, trigger_reason = ''change'', trigger_modules = [demo_module_virtual]\<rparr>"

text \<open>A manager with a debounce window open since time 1000 and its timer armed.\<close>

definition demo_pending :: "(int, nat) world" where
  "demo_pending =
     snd (debouncedRebuild demo_stringify demo_options 1000 ''change'' [demo_module_virtual]
            demo_wired)"

section \<open>Properties of the canonicalizer\<close>

lemma insort_key_map_keep:
  assumes "\<And>y. y \<in> set ys \<Longrightarrow> f (g y) = f y" and "f (g a) = f a"
  shows "insort_key f (g a) (map g ys) = map g (insort_key f a ys)"
  using assms by (induction ys) auto

lemma sort_key_map_keep:
  assumes "\<And>x. x \<in> set xs \<Longrightarrow> f (g x) = f x"
  shows "sort_key f (map g xs) = map g (sort_key f xs)"
  using assms
proof (induction xs)
  case Nil
  then show ?case by simp
next
  case (Cons a xs)
  then have "sort_key f (map g xs) = map g (sort_key f xs)" by simp
  moreover have "insort_key f (g a) (map g (sort_key f xs)) = map g (insort_key f a (sort_key f xs))"
    using Cons.prems by (intro insort_key_map_keep) simp_all
  ultimately show ?case by simp
qed

lemma canonicalize_idem: "canonicalize (canonicalize d) = canonicalize d"
proof (induction d)
  case (JArray vs)
  then show ?case by (simp add: map_idI)
next
  case (JObject kvs)
  define g :: "string \<times> 'a json \<Rightarrow> string \<times> 'a json"
    where "g = (\<lambda>(k, v). (k, canonicalize v))"
  have keep: "fst (g x) = fst x" for x
    by (cases x) (simp add: g_def)
  have idem: "map g (map g kvs) = map g kvs"
  proof (rule map_idI)
    fix x assume "x \<in> set (map g kvs)"
    then obtain k v where kv: "(k, v) \<in> set kvs" and x: "x = (k, canonicalize v)"
      by (auto simp: g_def)
    from kv have "v \<in> Basic_BNFs.snds (k, v)" by simp
    with JObject.IH kv have "canonicalize (canonicalize v) = canonicalize v"
      by blast
    with x show "g x = x" by (simp add: g_def)
  qed
  have "sort_key fst (map g (sort_key fst (map g kvs)))
      = sort_key fst (sort_key fst (map g (map g kvs)))"
    using sort_key_map_keep [of "map g kvs" fst g] keep by simp
  also have "\<dots> = sort_key fst (sort_key fst (map g kvs))"
    by (simp only: idem)
  also have "\<dots> = sort_key fst (map g kvs)"
    by (rule sort_key_id_if_sorted) simp
  finally show ?case by (simp add: g_def)
qed simp_all

text \<open>
  Two entry lists with distinct keys, the same length and the entries of one among those of
  the other are sorted into the same list.
\<close>

lemma sort_key_same_entries:
  fixes f :: "'a \<Rightarrow> 'k::linorder"
  assumes dA: "distinct (map f A)" and dB: "distinct (map f B)"
    and sub: "set A \<subseteq> set B" and len: "length A = length B"
  shows "sort_key f A = sort_key f B"
proof -
  from dA have A: "distinct A" "inj_on f (set A)" by (simp_all add: distinct_map)
  from dB have B: "distinct B" "inj_on f (set B)" by (simp_all add: distinct_map)
  from A(1) B(1) len have "card (set A) = card (set B)"
    by (simp add: distinct_card)
  with sub have seteq: "set A = set B"
    by (simp add: card_subset_eq)
  show ?thesis
  proof (rule map_sorted_distinct_set_unique [where f = f])
    show "inj_on f (set (sort_key f A) \<union> set (sort_key f B))"
      using B(2) seteq by simp
    show "distinct (map f (sort_key f A))"
      using A by (simp add: distinct_map)
    show "distinct (map f (sort_key f B))"
      using B by (simp add: distinct_map)
    show "set (sort_key f A) = set (sort_key f B)"
      using seteq by simp
  qed simp_all
qed

lemma canonicalize_unordered_eq:
  "well_formed d1 \<Longrightarrow> well_formed d2 \<Longrightarrow> unordered_eq d1 d2
    \<Longrightarrow> canonicalize d1 = canonicalize d2"
proof (induction d1 d2 rule: unordered_eq.induct)
  case (1 xs ys)
  from "1.prems" have wx: "\<forall>x \<in> set xs. well_formed x" and wy: "\<forall>y \<in> set ys. well_formed y"
    by (simp_all add: list_all_iff)
  from "1.prems" have rel: "list_all2 unordered_eq xs ys" by simp
  have "list_all2 (\<lambda>x y. canonicalize x = canonicalize y) xs ys"
    using rel wx wy "1.IH" by (auto simp: list_all2_conv_all_nth)
  then have "map canonicalize xs = map canonicalize ys"
    by (simp add: list_all2_conv_all_nth list_eq_iff_nth_eq)
  then show ?case by simp
next
  case (2 xs ys)
  define g :: "string \<times> 'a json \<Rightarrow> string \<times> 'a json"
    where "g = (\<lambda>(k, v). (k, canonicalize v))"
  have keep: "map fst (map g zs) = map fst zs" for zs
    by (induction zs) (auto simp: g_def)
  from "2.prems" have dx: "distinct (map fst xs)" and dy: "distinct (map fst ys)"
    and wx: "\<forall>(k, v) \<in> set xs. well_formed v" and wy: "\<forall>(k, v) \<in> set ys. well_formed v"
    and len: "length xs = length ys"
    and ex: "\<forall>(k, v) \<in> set xs. \<exists>(k', v') \<in> set ys. k = k' \<and> unordered_eq v v'"
    by (simp_all add: list_all_iff list_ex_iff)
  have sub: "set (map g xs) \<subseteq> set (map g ys)"
  proof
    fix p assume "p \<in> set (map g xs)"
    then obtain k v where kv: "(k, v) \<in> set xs" and p: "p = (k, canonicalize v)"
      by (auto simp: g_def)
    from ex kv obtain v' where kv': "(k, v') \<in> set ys" and u: "unordered_eq v v'"
      by fastforce
    from wx kv have "well_formed v" by auto
    moreover from wy kv' have "well_formed v'" by auto
    ultimately have "canonicalize v = canonicalize v'"
      using "2.IH" [OF kv refl kv' refl] u by simp
    with p kv' show "p \<in> set (map g ys)"
      by (force simp: g_def)
  qed
  have "sort_key fst (map g xs) = sort_key fst (map g ys)"
  proof (rule sort_key_same_entries)
    show "distinct (map fst (map g xs))" using dx by (simp only: keep)
    show "distinct (map fst (map g ys))" using dy by (simp only: keep)
    show "set (map g xs) \<subseteq> set (map g ys)" by (rule sub)
    show "length (map g xs) = length (map g ys)" using len by simp
  qed
  then show ?case by (simp add: g_def)
qed simp_all

text \<open>
  C9. \<^verbatim>\<open>canonicalize\<close> is idempotent, and it is order-independent: two documents that are
  equal as unordered trees (each a well-formed value, every object holding a key once) have
  the same canonical form, hence the same serialization under any serializer.
\<close>

theorem canonicalize_idempotent_order_independent:
  "canonicalize (canonicalize d) = canonicalize d \<and>
   (well_formed d1 \<and> well_formed d2 \<and> unordered_eq d1 d2 \<longrightarrow>
      canonicalize d1 = canonicalize d2 \<and>
      serialize (canonicalize d1) = serialize (canonicalize d2))"
proof (intro conjI impI)
  show "canonicalize (canonicalize d) = canonicalize d"
    by (rule canonicalize_idem)
next
  assume h: "well_formed d1 \<and> well_formed d2 \<and> unordered_eq d1 d2"
  then show eq: "canonicalize d1 = canonicalize d2"
    by (simp add: canonicalize_unordered_eq)
  then show "serialize (canonicalize d1) = serialize (canonicalize d2)"
    by simp
qed

theorem canonicalize_idempotent_order_independent_witness:
  "well_formed (JObject [(''b'', JArray [JString ''x'', JNull]), (''a'', JNumber (1::int))]) \<and>
   well_formed (JObject [(''a'', JNumber (1::int)), (''b'', JArray [JString ''x'', JNull])]) \<and>
   unordered_eq (JObject [(''b'', JArray [JString ''x'', JNull]), (''a'', JNumber (1::int))])
                (JObject [(''a'', JNumber 1), (''b'', JArray [JString ''x'', JNull])]) \<and>
   canonicalize (JObject [(''b'', JArray [JString ''x'', JNull]), (''a'', JNumber (1::int))])
     = canonicalize (JObject [(''a'', JNumber 1), (''b'', JArray [JString ''x'', JNull])])"
proof -
  have h: "well_formed (JObject [(''b'', JArray [JString ''x'', JNull]), (''a'', JNumber (1::int))]) \<and>
     well_formed (JObject [(''a'', JNumber (1::int)), (''b'', JArray [JString ''x'', JNull])]) \<and>
     unordered_eq (JObject [(''b'', JArray [JString ''x'', JNull]), (''a'', JNumber (1::int))])
                  (JObject [(''a'', JNumber 1), (''b'', JArray [JString ''x'', JNull])])"
    by simp
  with canonicalize_idempotent_order_independent
         [of JNull "JObject [(''b'', JArray [JString ''x'', JNull]), (''a'', JNumber (1::int))]"
             "JObject [(''a'', JNumber (1::int)), (''b'', JArray [JString ''x'', JNull])]" id]
  show ?thesis by blast
qed

section \<open>Invalidation and the rebuild pipeline\<close>

lemma emit_fields [simp]:
  "trace (emit es w) = trace w @ es"
  "fs (emit es w) = fs w"
  "timers (emit es w) = timers w"
  "promises (emit es w) = promises w"
  "next_handle (emit es w) = next_handle w"
  "rebuildTimer (emit es w) = rebuildTimer w"
  "lastRebuildCall (emit es w) = lastRebuildCall w"
  "serverRef (emit es w) = serverRef w"
  "resolvedVirtualId (emit es w) = resolvedVirtualId w"
  "environment (emit es w) = environment w"
  by (simp_all add: emit_def)

lemma host_effect_fields [simp]:
  "trace (host_effect w s es) = trace w @ es"
  "fs (host_effect w s es) = s"
  "timers (host_effect w s es) = timers w"
  "promises (host_effect w s es) = promises w"
  "next_handle (host_effect w s es) = next_handle w"
  "rebuildTimer (host_effect w s es) = rebuildTimer w"
  "lastRebuildCall (host_effect w s es) = lastRebuildCall w"
  "serverRef (host_effect w s es) = serverRef w"
  "resolvedVirtualId (host_effect w s es) = resolvedVirtualId w"
  "environment (host_effect w s es) = environment w"
  by (simp_all add: host_effect_def)

text \<open>Sequences of calls.\<close>

lemma first_error_append:
  "first_error (cs @ ds) = (case first_error cs of Some e \<Rightarrow> Some e | None \<Rightarrow> first_error ds)"
  by (induction cs rule: first_error.induct) (simp_all split: option.splits)

lemma performed_append:
  "performed (cs @ ds) =
     performed cs @ (case first_error cs of Some e \<Rightarrow> [] | None \<Rightarrow> performed ds)"
  by (induction cs rule: first_error.induct) (simp_all split: option.splits)

lemma performed_all_return:
  "first_error cs = None \<Longrightarrow> performed cs = map fst cs"
  by (induction cs rule: first_error.induct) (simp_all split: option.splits)

lemma performed_events: "set (performed cs) \<subseteq> fst ` set cs"
  by (induction cs rule: first_error.induct) (auto split: option.splits)

lemma first_error_thrown:
  "first_error cs = Some e \<Longrightarrow> \<exists>ev. (ev, Some e) \<in> set cs"
  by (induction cs rule: first_error.induct) (auto split: option.splits)

lemma logger_returns_calls:
  assumes "logger_returns opts"
  shows "first_error (info_calls opts msg) = None"
    and "first_error (warn_calls opts msg) = None"
    and "performed (info_calls opts msg) = info_events opts msg"
    and "performed (warn_calls opts msg) = warn_events opts msg"
  using assms
  by (auto simp: logger_returns_def info_calls_def warn_calls_def info_events_def
      warn_events_def split: option.splits)

lemma callback_returns_calls:
  assumes "callback_returns opts"
  shows "first_error (callback_calls opts cache) = None"
    and "performed (callback_calls opts cache) = callback_events opts cache"
  using assms
  by (auto simp: callback_returns_def callback_calls_def callback_events_def
      split: option.splits)

lemma environment_returns_calls:
  assumes "environment_returns w"
  shows "first_error (invalidateAll_calls (environment w) @
                      hot_send_calls (environment w) FullReload) = None"
    and "performed (invalidateAll_calls (environment w) @
                    hot_send_calls (environment w) FullReload) = reload_events w"
proof -
  from assms
  show none: "first_error (invalidateAll_calls (environment w) @
                      hot_send_calls (environment w) FullReload) = None"
    by (auto simp: environment_returns_def invalidateAll_calls_def hot_send_calls_def
        split: option.splits)
  then show "performed (invalidateAll_calls (environment w) @
                    hot_send_calls (environment w) FullReload) = reload_events w"
    unfolding reload_events_def by (rule performed_all_return)
qed

lemma log_calls_no_read:
  "ReadAndGroup \<notin> set (performed (info_calls opts msg))"
  "ReadAndGroup \<notin> set (performed (warn_calls opts msg))"
  "ReadAndGroup \<notin> set (performed (callback_calls opts cache))"
  by (simp_all add: info_calls_def warn_calls_def callback_calls_def split: option.splits)

text \<open>The two ways through \<^verbatim>\<open>invalidateModule\<close>: the wiring guard, and the code behind it.\<close>

lemma invalidateModule_unwired:
  assumes "serverRef w = None \<or> falsy_string (resolvedVirtualId w)"
  shows "invalidateModule opts ms w =
           returning
             (warn_calls opts
                (NotFoundMsg (serverRef w \<noteq> None) (\<not> falsy_string (resolvedVirtualId w))))
             None"
  using assms by (simp add: invalidateModule_def)

lemma invalidateModule_wired:
  assumes "serverRef w = Some s" and "resolvedVirtualId w = Some vid" and "vid \<noteq> []"
  shows "invalidateModule opts ms w =
           returning
             (invalidateAll_calls (environment w) @
              hot_send_calls (environment w) FullReload @
              info_calls opts
                (ReloadMsg vid
                   (filter (\<lambda>m. case mod_id m of None \<Rightarrow> False
                                | Some i \<Rightarrow> string_includes i vid) ms)))
             (Some (filter (\<lambda>m. case mod_id m of None \<Rightarrow> False
                               | Some i \<Rightarrow> string_includes i vid) ms))"
  using assms
  by (simp add: invalidateModule_def falsy_string_def truthy_array_def Let_def)

lemma invalidateModule_same_wiring:
  assumes "same_wiring w w'"
  shows "invalidateModule opts ms w' = invalidateModule opts ms w"
  using assms by (simp add: invalidateModule_def same_wiring_def Let_def)

lemma host_calls_no_read:
  "ReadAndGroup \<notin> fst ` set (invalidateAll_calls environ)"
  "ReadAndGroup \<notin> fst ` set (hot_send_calls environ payload)"
  "ReadAndGroup \<notin> fst ` set (info_calls opts msg)"
  "ReadAndGroup \<notin> fst ` set (warn_calls opts msg)"
  "ReadAndGroup \<notin> fst ` set (callback_calls opts cache)"
  by (auto simp: invalidateAll_calls_def hot_send_calls_def info_calls_def warn_calls_def
      callback_calls_def split: option.splits)

lemma performed_no_read:
  assumes "ReadAndGroup \<notin> fst ` set cs"
  shows "filter (\<lambda>e. e = ReadAndGroup) (performed cs) = []"
proof -
  from assms performed_events [of cs] have "ReadAndGroup \<notin> set (performed cs)"
    by blast
  then show ?thesis by (auto simp: filter_empty_conv)
qed

lemma invalidateModule_no_read:
  "filter (\<lambda>e. e = ReadAndGroup) (snd (invalidateModule opts ms w)) = []"
proof (cases "serverRef w = None \<or> falsy_string (resolvedVirtualId w)")
  case True
  then show ?thesis
    by (simp add: invalidateModule_unwired returning_def performed_no_read host_calls_no_read)
next
  case False
  then obtain s vid where "serverRef w = Some s" "resolvedVirtualId w = Some vid" "vid \<noteq> []"
    by (auto simp: falsy_string_def)
  from invalidateModule_wired [OF this, of opts ms] show ?thesis
    by (simp add: returning_def performed_no_read host_calls_no_read image_Un)
qed

text \<open>The ways through \<^verbatim>\<open>rebuild\<close>.\<close>

lemma first_log_calls:
  "(if 0 < filesRead st \<or> logger opts \<noteq> None then info_calls opts msg else [])
     = info_calls opts msg"
  by (simp add: info_calls_def)

lemma no_logger_no_calls:
  assumes "logger opts = None"
  shows "info_calls opts msg = []" and "info_events opts msg = []"
  using assms by (simp_all add: info_calls_def info_events_def)

lemma rebuild_read_error:
  assumes "fileManager opts (fs w) = (Inl e, fs1)"
  shows "rebuild S opts reason ms w = (Inl e, host_effect w fs1 [ReadAndGroup])"
  using assms by (simp add: rebuild_def)

lemma rebuild_generate_error:
  assumes "fileManager opts (fs w) = (Inr (g, st), fs1)"
    and "generationCoordinator opts (canonicalize (JObject g)) (root opts) fs1 = (Inl e, fs2)"
    and "logger_returns opts"
  shows "rebuild S opts reason ms w =
           (Inl e, host_effect w fs2
                     ([ReadAndGroup] @ info_events opts (ReadGroupMsg st) @
                      [GenerateFiles (canonicalize (JObject g)) (root opts)]))"
  using assms
  by (simp add: rebuild_def first_log_calls no_logger_no_calls Let_def logger_returns_calls
      del: canonicalize.simps)

lemma rebuild_invalidate_error:
  assumes "fileManager opts (fs w) = (Inr (g, st), fs1)"
    and "generationCoordinator opts (canonicalize (JObject g)) (root opts) fs1 = (Inr gen, fs2)"
    and "logger_returns opts"
    and "invalidateModule opts ms w = (Inl e, invalidated)"
  shows "rebuild S opts reason ms w =
           (Inl e, host_effect w fs2
                     ([ReadAndGroup] @ info_events opts (ReadGroupMsg st) @
                      [GenerateFiles (canonicalize (JObject g)) (root opts)] @
                      info_events opts (GeneratedMsg gen) @ invalidated))"
  using assms
  by (simp add: rebuild_def first_log_calls no_logger_no_calls Let_def logger_returns_calls
      del: canonicalize.simps)

lemma rebuild_success:
  assumes "fileManager opts (fs w) = (Inr (g, st), fs1)"
    and "generationCoordinator opts (canonicalize (JObject g)) (root opts) fs1 = (Inr gen, fs2)"
    and "logger_returns opts" and "callback_returns opts"
    and "invalidateModule opts ms w = (Inr modulesResult, invalidated)"
  shows "rebuild S opts reason ms w =
           (Inr \<lparr>modules = (case modulesResult of None \<Rightarrow> [] | Some m \<Rightarrow> m),
                 grouped = canonicalize (JObject g),
                 jsonText = S (canonicalize (JObject g))\<rparr>,
            host_effect w fs2
              ([ReadAndGroup] @ info_events opts (ReadGroupMsg st) @
               [GenerateFiles (canonicalize (JObject g)) (root opts)] @
               info_events opts (GeneratedMsg gen) @
               invalidated @
               callback_events opts
                 \<lparr>cache_modules = modulesResult,
                  cache_grouped = canonicalize (JObject g),
                  cache_jsonText = S (canonicalize (JObject g))\<rparr> @
               info_events opts
                 (RebuildCompleteMsg reason (Object_keys (canonicalize (JObject g))))))"
  using assms
  by (simp add: rebuild_def first_log_calls no_logger_no_calls Let_def logger_returns_calls
      callback_returns_calls first_error_append performed_append
      del: canonicalize.simps)

lemma rebuild_callback_error:
  assumes "fileManager opts (fs w) = (Inr (g, st), fs1)"
    and "generationCoordinator opts (canonicalize (JObject g)) (root opts) fs1 = (Inr gen, fs2)"
    and "logger_returns opts"
    and "invalidateModule opts ms w = (Inr modulesResult, invalidated)"
    and "onRebuildComplete opts = Some callback"
    and "callback \<lparr>cache_modules = modulesResult,
                    cache_grouped = canonicalize (JObject g),
                    cache_jsonText = S (canonicalize (JObject g))\<rparr> = Some e"
  shows "rebuild S opts reason ms w =
           (Inl e,
            host_effect w fs2
              ([ReadAndGroup] @ info_events opts (ReadGroupMsg st) @
               [GenerateFiles (canonicalize (JObject g)) (root opts)] @
               info_events opts (GeneratedMsg gen) @
               invalidated @
               [RebuildComplete
                  \<lparr>cache_modules = modulesResult,
                   cache_grouped = canonicalize (JObject g),
                   cache_jsonText = S (canonicalize (JObject g))\<rparr>]))"
  using assms
  by (simp add: rebuild_def first_log_calls no_logger_no_calls Let_def logger_returns_calls
      callback_calls_def first_error_append performed_append
      del: canonicalize.simps)

text \<open>
  What one run of the pipeline is to the rest of the world: a result, a new collaborator
  state and a list of events, one of them the call of \<^verbatim>\<open>readAndGroup\<close>, all three
  determined by the collaborator state and the wiring alone.
\<close>

lemma invalidateModule_result_no_read:
  assumes "invalidateModule opts ms w = (r, es)"
  shows "filter (\<lambda>e. e = ReadAndGroup) es = []"
  using invalidateModule_no_read [of opts ms w] assms by simp

lemma rebuild_effect:
  "\<exists>f es. snd (rebuild S opts reason ms w) = host_effect w f es \<and>
          length (filter (\<lambda>e. e = ReadAndGroup) es) = 1"
  by (auto simp: rebuild_def first_log_calls Let_def performed_no_read host_calls_no_read
      image_Un
      simp del: canonicalize.simps split: prod.splits sum.splits option.splits
      dest: invalidateModule_result_no_read
      intro!: exI)

lemma rebuild_same_inputs:
  assumes "same_inputs w w'"
  shows "rebuild S opts reason ms w' =
           (fst (rebuild S opts reason ms w),
            host_effect w' (fs (snd (rebuild S opts reason ms w)))
              (drop (length (trace w)) (trace (snd (rebuild S opts reason ms w)))))"
proof -
  have 1: "fs w' = fs w" using assms by (simp add: same_inputs_def)
  have 2: "invalidateModule opts ms w' = invalidateModule opts ms w"
    using assms by (simp add: same_inputs_def invalidateModule_same_wiring)
  show ?thesis
    unfolding rebuild_def
    by (simp add: 1 2 Let_def split: prod.splits sum.splits option.splits
        del: canonicalize.simps)
qed

lemma rebuild_shape:
  obtains r f es where
    "rebuild S opts reason ms w = (r, host_effect w f es)"
    and "\<And>w'. same_inputs w w' \<Longrightarrow>
           rebuild S opts reason ms w' = (r, host_effect w' f es)"
    and "length (filter (\<lambda>e. e = ReadAndGroup) es) = 1"
proof -
  obtain f es where e: "snd (rebuild S opts reason ms w) = host_effect w f es"
    and n: "length (filter (\<lambda>e. e = ReadAndGroup) es) = 1"
    using rebuild_effect [of S opts reason ms w] by blast
  show ?thesis
  proof (rule that [where r = "fst (rebuild S opts reason ms w)" and f = f and es = es])
    show "rebuild S opts reason ms w = (fst (rebuild S opts reason ms w), host_effect w f es)"
      using e by (simp add: prod_eq_iff)
    show "rebuild S opts reason ms w' = (fst (rebuild S opts reason ms w), host_effect w' f es)"
      if "same_inputs w w'" for w'
      using rebuild_same_inputs [OF that, of S opts reason] e by simp
    show "length (filter (\<lambda>e. e = ReadAndGroup) es) = 1" by (rule n)
  qed
qed

section \<open>The claims about invalidation\<close>

lemmas demo_defs =
  demo_grouped_def demo_canonical_def demo_stats_def demo_generated_def
  demo_readAndGroup_def demo_readAndGroup_failing_def demo_generateFiles_def
  demo_logger_def demo_callback_def demo_logger_throwing_def demo_callback_throwing_def
  demo_options_def demo_options_failing_def demo_options_logger_throwing_def
  demo_options_silent_callback_throwing_def demo_virtual_id_def demo_module_virtual_def
  demo_module_other_def demo_environment_def demo_environment_failing_def demo_unwired_def
  demo_server_only_def demo_wired_def demo_wired_failing_def demo_trigger_def
  new_RebuildManager_def setServer_def setEnv_def

lemmas call_defs =
  returning_def info_calls_def warn_calls_def callback_calls_def invalidateAll_calls_def
  hot_send_calls_def info_events_def warn_events_def callback_events_def reload_events_def

lemma demo_canonicalize: "canonicalize (JObject demo_grouped) = demo_canonical"
  by (simp add: demo_grouped_def demo_canonical_def)

lemma demo_parts_return:
  "logger_returns demo_options" "callback_returns demo_options"
  "environment_returns demo_wired" "environment_returns demo_server_only"
  "environment_returns demo_unwired" "logger_returns demo_options_failing"
  "callback_returns demo_options_failing"
  by (simp_all add: logger_returns_def callback_returns_def environment_returns_def demo_defs)

lemma no_warning_behind_guard:
  "LogWarn msg \<notin> set (performed (invalidateAll_calls environ @ hot_send_calls environ payload @
                                  info_calls opts m))"
proof -
  have "LogWarn msg \<notin> fst ` set (invalidateAll_calls environ @ hot_send_calls environ payload @
                                  info_calls opts m)"
    by (auto simp: invalidateAll_calls_def hot_send_calls_def info_calls_def
        split: option.splits)
  with performed_events show ?thesis by blast
qed

lemma calls_then:
  "first_error (xs @ ys @ zs) =
     (case first_error (xs @ ys) of Some e \<Rightarrow> Some e | None \<Rightarrow> first_error zs)"
  "performed (xs @ ys @ zs) =
     performed (xs @ ys) @ (case first_error (xs @ ys) of Some e \<Rightarrow> [] | None \<Rightarrow> performed zs)"
  using first_error_append [of "xs @ ys" zs] performed_append [of "xs @ ys" zs] by simp_all

lemma invalidateModule_wired_returns:
  assumes "serverRef w = Some s" and "resolvedVirtualId w = Some vid" and "vid \<noteq> []"
    and "environment_returns w" and "logger_returns opts"
  shows "invalidateModule opts ms w =
           (Inr (Some (filter (\<lambda>m. case mod_id m of None \<Rightarrow> False
                                   | Some i \<Rightarrow> string_includes i vid) ms)),
            reload_events w @
            info_events opts
              (ReloadMsg vid (filter (\<lambda>m. case mod_id m of None \<Rightarrow> False
                                          | Some i \<Rightarrow> string_includes i vid) ms)))"
  unfolding invalidateModule_wired [OF assms(1-3)] returning_def calls_then
    environment_returns_calls [OF assms(4)] logger_returns_calls [OF assms(5)]
  by simp

lemma invalidateModule_wired_log_throws:
  assumes "serverRef w = Some s" and "resolvedVirtualId w = Some vid" and "vid \<noteq> []"
    and "environment_returns w" and "logger opts = Some l"
    and "info l (ReloadMsg vid (filter (\<lambda>m. case mod_id m of None \<Rightarrow> False
                                          | Some i \<Rightarrow> string_includes i vid) ms)) = Some e"
  shows "invalidateModule opts ms w =
           (Inl e,
            reload_events w @
            [LogInfo (ReloadMsg vid (filter (\<lambda>m. case mod_id m of None \<Rightarrow> False
                                               | Some i \<Rightarrow> string_includes i vid) ms))])"
  unfolding invalidateModule_wired [OF assms(1-3)] returning_def calls_then
    environment_returns_calls [OF assms(4)]
  using assms(5,6) by (simp add: info_calls_def)




text \<open>
  C10, as stated, fails: the server reference and the virtual identifier can be set while the
  environment is not (\<^verbatim>\<open>setEnv\<close> is a separate call). Then the optional chains
  \<^verbatim>\<open>environment?.moduleGraph?.invalidateAll()\<close> and \<^verbatim>\<open>environment?.hot?.send(...)\<close> invoke
  nothing.
\<close>

theorem invalidateModule_reload_counterexample:
  "serverRef demo_server_only = Some ViteDevServer \<and>
   resolvedVirtualId demo_server_only = Some demo_virtual_id \<and>
   invalidateModule demo_options [demo_module_virtual] demo_server_only
     = (Inr (Some [demo_module_virtual]),
        [LogInfo (ReloadMsg demo_virtual_id [demo_module_virtual])])"
  by (simp add: invalidateModule_def demo_defs falsy_string_def truthy_array_def Let_def
      call_defs)

text \<open>
  C10, amended. Once the server reference and a non-empty virtual identifier are set, the
  no-match warning branch is unreachable: for every module list, also one in which no
  identifier contains the virtual identifier, no warning is logged, and whenever
  \<^verbatim>\<open>invalidateModule\<close> returns, it returns the filtered (possibly empty) list. The calls it
  makes are, in this order, \<^verbatim>\<open>invalidateAll\<close> when the environment is bound and has a module
  graph, the full-reload message when the environment is bound and has a hot channel, and
  the \<^verbatim>\<open>Reload\<close> log line when a logger is configured. When all of them return, that is
  all it does. When one throws, \<^verbatim>\<open>invalidateModule\<close> throws that error at once: a rejecting
  \<^verbatim>\<open>invalidateAll\<close> leaves the full-reload message unsent, a throwing \<^verbatim>\<open>hot.send\<close> leaves the
  line unlogged, and in neither case is a list returned.
\<close>

theorem invalidateModule_warning_unreachable:
  assumes "serverRef w = Some s" and "resolvedVirtualId w = Some vid" and "vid \<noteq> []"
  shows "(\<forall>msg. LogWarn msg \<notin> set (snd (invalidateModule opts ms w))) \<and>
         (\<forall>r. fst (invalidateModule opts ms w) = Inr r \<longrightarrow>
              r = Some (filter (\<lambda>m. case mod_id m of None \<Rightarrow> False
                                   | Some i \<Rightarrow> string_includes i vid) ms)) \<and>
         (environment_returns w \<and> logger_returns opts \<longrightarrow>
            invalidateModule opts ms w =
              (Inr (Some (filter (\<lambda>m. case mod_id m of None \<Rightarrow> False
                                      | Some i \<Rightarrow> string_includes i vid) ms)),
               reload_events w @
               info_events opts
                 (ReloadMsg vid (filter (\<lambda>m. case mod_id m of None \<Rightarrow> False
                                             | Some i \<Rightarrow> string_includes i vid) ms)))) \<and>
         (\<forall>env g e. environment w = Some env \<and> moduleGraph env = Some g \<and>
                    invalidateAll g = Some e \<longrightarrow>
            invalidateModule opts ms w = (Inl e, [InvalidateAll])) \<and>
         (\<forall>env h e. environment w = Some env \<and>
                    (case moduleGraph env of None \<Rightarrow> True | Some g \<Rightarrow> invalidateAll g = None) \<and>
                    hot env = Some h \<and> send h FullReload = Some e \<longrightarrow>
            invalidateModule opts ms w =
              (Inl e, map fst (invalidateAll_calls (environment w)) @ [HotSend FullReload])) \<and>
         (\<forall>l e. environment_returns w \<and> logger opts = Some l \<and>
                info l (ReloadMsg vid (filter (\<lambda>m. case mod_id m of None \<Rightarrow> False
                                                | Some i \<Rightarrow> string_includes i vid) ms)) = Some e \<longrightarrow>
            invalidateModule opts ms w =
              (Inl e,
               reload_events w @
               [LogInfo (ReloadMsg vid (filter (\<lambda>m. case mod_id m of None \<Rightarrow> False
                                                  | Some i \<Rightarrow> string_includes i vid) ms))]))"
proof -
  let ?f = "filter (\<lambda>m. case mod_id m of None \<Rightarrow> False | Some i \<Rightarrow> string_includes i vid) ms"
  note eq = invalidateModule_wired [OF assms, of opts ms]
  have 1: "\<forall>msg. LogWarn msg \<notin> set (snd (invalidateModule opts ms w))"
    by (simp add: eq returning_def no_warning_behind_guard)
  have 2: "\<forall>r. fst (invalidateModule opts ms w) = Inr r \<longrightarrow> r = Some ?f"
    by (auto simp: eq returning_def split: option.splits)
  have 3: "invalidateModule opts ms w =
             (Inr (Some ?f), reload_events w @ info_events opts (ReloadMsg vid ?f))"
    if "environment_returns w" "logger_returns opts"
    using that by (rule invalidateModule_wired_returns [OF assms])
  have 4: "invalidateModule opts ms w = (Inl e, [InvalidateAll])"
    if "environment w = Some env" "moduleGraph env = Some g" "invalidateAll g = Some e"
    for env g e
    using that by (simp add: eq returning_def invalidateAll_calls_def)
  have 5: "invalidateModule opts ms w =
             (Inl e, map fst (invalidateAll_calls (environment w)) @ [HotSend FullReload])"
    if "environment w = Some env"
      "case moduleGraph env of None \<Rightarrow> True | Some g \<Rightarrow> invalidateAll g = None"
      "hot env = Some h" "send h FullReload = Some e"
    for env h e
    using that
    by (auto simp: eq returning_def invalidateAll_calls_def hot_send_calls_def
        split: option.splits)
  have 6: "invalidateModule opts ms w =
             (Inl e, reload_events w @ [LogInfo (ReloadMsg vid ?f)])"
    if "environment_returns w" "logger opts = Some l" "info l (ReloadMsg vid ?f) = Some e"
    for l e
    using that by (rule invalidateModule_wired_log_throws [OF assms])
  from 1 2 3 4 5 6 show ?thesis by blast
qed

theorem invalidateModule_warning_unreachable_witness:
  "serverRef demo_wired = Some ViteDevServer \<and>
   resolvedVirtualId demo_wired = Some demo_virtual_id \<and> demo_virtual_id \<noteq> [] \<and>
   environment_returns demo_wired \<and> logger_returns demo_options \<and>
   invalidateModule demo_options [demo_module_other] demo_wired
     = (Inr (Some []),
        [InvalidateAll, HotSend FullReload, LogInfo (ReloadMsg demo_virtual_id [])]) \<and>
   serverRef demo_wired_failing = Some ViteDevServer \<and>
   resolvedVirtualId demo_wired_failing = Some demo_virtual_id \<and>
   environment demo_wired_failing = Some demo_environment_failing \<and>
   moduleGraph demo_environment_failing = Some \<lparr>invalidateAll = Some (JsError ''graph closed'')\<rparr> \<and>
   invalidateModule demo_options [demo_module_virtual] demo_wired_failing
     = (Inl (JsError ''graph closed''), [InvalidateAll])"
proof -
  have h: "serverRef demo_wired = Some ViteDevServer"
    "resolvedVirtualId demo_wired = Some demo_virtual_id" "demo_virtual_id \<noteq> []"
    by (simp_all add: demo_defs)
  have h': "serverRef demo_wired_failing = Some ViteDevServer"
    "resolvedVirtualId demo_wired_failing = Some demo_virtual_id" "demo_virtual_id \<noteq> []"
    by (simp_all add: demo_defs)
  have r: "environment_returns demo_wired" "logger_returns demo_options"
    by (rule demo_parts_return)+
  have f: "filter (\<lambda>m. case mod_id m of None \<Rightarrow> False
                       | Some i \<Rightarrow> string_includes i demo_virtual_id) [demo_module_other] = []"
    by (simp add: demo_defs)
  have e: "reload_events demo_wired = [InvalidateAll, HotSend FullReload]"
    "info_events demo_options (ReloadMsg demo_virtual_id [])
       = [LogInfo (ReloadMsg demo_virtual_id [])]"
    by (simp_all add: demo_defs call_defs)
  have g: "environment demo_wired_failing = Some demo_environment_failing"
    "moduleGraph demo_environment_failing
       = Some \<lparr>invalidateAll = Some (JsError ''graph closed'')\<rparr>"
    "invalidateAll \<lparr>invalidateAll = Some (JsError ''graph closed'')\<rparr>
       = Some (JsError ''graph closed'')"
    by (simp_all add: demo_defs)
  have a: "invalidateModule demo_options [demo_module_other] demo_wired
     = (Inr (Some []),
        [InvalidateAll, HotSend FullReload, LogInfo (ReloadMsg demo_virtual_id [])])"
    using invalidateModule_warning_unreachable [OF h, of demo_options "[demo_module_other]",
      THEN conjunct2, THEN conjunct2, THEN conjunct1] r
    unfolding f e by simp
  from invalidateModule_warning_unreachable [OF h', of demo_options "[demo_module_virtual]",
      THEN conjunct2, THEN conjunct2, THEN conjunct2, THEN conjunct1] g
  have b: "invalidateModule demo_options [demo_module_virtual] demo_wired_failing
     = (Inl (JsError ''graph closed''), [InvalidateAll])"
    by simp
  show ?thesis
    by (intro conjI) (rule h h' r g a b)+
qed

section \<open>The claims about the rebuild pipeline\<close>

lemma invalidateModule_returns:
  assumes "logger_returns opts" and "environment_returns w"
  shows "\<exists>modulesResult. fst (invalidateModule opts ms w) = Inr modulesResult"
proof (cases "serverRef w = None \<or> falsy_string (resolvedVirtualId w)")
  case True
  then show ?thesis
    by (simp add: invalidateModule_unwired returning_def logger_returns_calls [OF assms(1)])
next
  case False
  then obtain s vid where "serverRef w = Some s" "resolvedVirtualId w = Some vid" "vid \<noteq> []"
    by (auto simp: falsy_string_def)
  from invalidateModule_wired_returns [OF this assms(2,1), of ms] show ?thesis
    by simp
qed

lemma rebuild_invalidate_throws:
  assumes "fileManager opts (fs w) = (Inr (g, st), fs1)"
    and "generationCoordinator opts (canonicalize (JObject g)) (root opts) fs1 = (Inr gen, fs2)"
    and "\<And>msg. first_error (info_calls opts msg) = None"
    and "invalidateModule opts ms w = (Inl e, invalidated)"
  shows "rebuild S opts reason ms w =
           (Inl e, host_effect w fs2
                     ([ReadAndGroup] @ info_events opts (ReadGroupMsg st) @
                      [GenerateFiles (canonicalize (JObject g)) (root opts)] @
                      info_events opts (GeneratedMsg gen) @ invalidated))"
proof -
  have "performed (info_calls opts msg) = info_events opts msg" for msg
    unfolding info_events_def using assms(3) by (rule performed_all_return)
  with assms show ?thesis
    by (simp add: rebuild_def first_log_calls no_logger_no_calls Let_def
        del: canonicalize.simps)
qed

lemma rebuild_text_of_document:
  assumes "fst (rebuild S opts reason ms w) = Inr res"
  shows "jsonText res = S (grouped res)"
  using assms
  by (auto simp: rebuild_def Let_def simp del: canonicalize.simps
      split: prod.splits sum.splits option.splits if_splits)

lemma demo_collaborators:
  "fileManager demo_options (fs demo_unwired) = (Inr (demo_grouped, demo_stats), 1)"
  "generationCoordinator demo_options (canonicalize (JObject demo_grouped)) (root demo_options) 1
     = (Inr demo_generated, 1)"
  "fileManager demo_options (fs demo_wired) = (Inr (demo_grouped, demo_stats), 1)"
  "fileManager demo_options (fs demo_server_only) = (Inr (demo_grouped, demo_stats), 1)"
  by (simp_all add: demo_options_def demo_unwired_def demo_wired_def demo_server_only_def
      demo_readAndGroup_def demo_generateFiles_def new_RebuildManager_def setServer_def
      setEnv_def del: canonicalize.simps)

lemma demo_collaborators_logger_throwing:
  "fileManager demo_options_logger_throwing (fs demo_unwired)
     = (Inr (demo_grouped, demo_stats), 1)"
  "generationCoordinator demo_options_logger_throwing (canonicalize (JObject demo_grouped))
     (root demo_options_logger_throwing) 1 = (Inr demo_generated, 1)"
  by (simp_all add: demo_options_logger_throwing_def demo_unwired_def
      demo_readAndGroup_def demo_generateFiles_def new_RebuildManager_def
      del: canonicalize.simps)

lemma demo_collaborators_callback_throwing:
  "fileManager demo_options_silent_callback_throwing (fs demo_wired)
     = (Inr (demo_grouped, demo_stats), 1)"
  "generationCoordinator demo_options_silent_callback_throwing
     (canonicalize (JObject demo_grouped)) (root demo_options_silent_callback_throwing) 1
     = (Inr demo_generated, 1)"
  by (simp_all add: demo_options_silent_callback_throwing_def demo_wired_def
      demo_readAndGroup_def demo_generateFiles_def new_RebuildManager_def setServer_def
      setEnv_def del: canonicalize.simps)

lemma demo_invalidate_unwired:
  "invalidateModule demo_options ms demo_unwired
     = (Inr None, [LogWarn (NotFoundMsg False False)])"
  by (simp add: invalidateModule_unwired demo_unwired_def new_RebuildManager_def
      falsy_string_def call_defs demo_options_def demo_logger_def)

text \<open>
  C7, as stated, fails for the third kind of missing wiring. When only the environment
  binding is missing, the invalidation step is skipped, but no warning is logged: the
  logger receives the \<^verbatim>\<open>Reload\<close> line at level info, as if the reload had happened.
\<close>

theorem invalidateModule_missing_environment_counterexample:
  "environment demo_server_only = None \<and> logger demo_options = Some demo_logger \<and>
   invalidateModule demo_options [demo_module_virtual] demo_server_only
     = (Inr (Some [demo_module_virtual]),
        [LogInfo (ReloadMsg demo_virtual_id [demo_module_virtual])])"
  by (simp add: invalidateModule_def demo_defs falsy_string_def truthy_array_def Let_def
      call_defs)

text \<open>
  C7, amended. When the server reference or the virtual identifier is missing (an empty
  identifier counts as missing), \<^verbatim>\<open>invalidateModule\<close> does nothing but call \<^verbatim>\<open>logger.warn\<close>,
  provided a logger is configured, and returns nothing when that call returns. When these
  two are present and only the environment binding is missing, it invokes neither
  \<^verbatim>\<open>invalidateAll\<close> nor the hot channel and logs no warning; when the logger returns, it
  returns the filtered list. In both cases \<^verbatim>\<open>rebuild\<close> completes when both collaborators
  return and neither the logger nor the completion callback throws; the modules it returns
  are those of the invalidation step, or none. The warning is not free of failure: when
  \<^verbatim>\<open>logger.warn\<close> throws, \<^verbatim>\<open>invalidateModule\<close> throws that error, and so does \<^verbatim>\<open>rebuild\<close>.
\<close>

theorem invalidation_without_wiring:
  "(serverRef w = None \<or> falsy_string (resolvedVirtualId w) \<longrightarrow>
      snd (invalidateModule opts ms w)
        = warn_events opts (NotFoundMsg (serverRef w \<noteq> None)
                                        (\<not> falsy_string (resolvedVirtualId w))) \<and>
      (logger_returns opts \<longrightarrow> fst (invalidateModule opts ms w) = Inr None) \<and>
      (\<forall>l e. logger opts = Some l \<and>
             warn l (NotFoundMsg (serverRef w \<noteq> None)
                                 (\<not> falsy_string (resolvedVirtualId w))) = Some e \<longrightarrow>
         fst (invalidateModule opts ms w) = Inl e \<and>
         ((\<forall>msg. info l msg = None) \<and>
          fileManager opts (fs w) = (Inr (g, st), fs1) \<and>
          generationCoordinator opts (canonicalize (JObject g)) (root opts) fs1
            = (Inr gen, fs2) \<longrightarrow>
            rebuild S opts reason ms w =
              (Inl e,
               host_effect w fs2
                 [ReadAndGroup, LogInfo (ReadGroupMsg st),
                  GenerateFiles (canonicalize (JObject g)) (root opts),
                  LogInfo (GeneratedMsg gen),
                  LogWarn (NotFoundMsg (serverRef w \<noteq> None)
                                       (\<not> falsy_string (resolvedVirtualId w)))])))) \<and>
   (serverRef w = Some s \<and> resolvedVirtualId w = Some vid \<and> vid \<noteq> [] \<and>
    environment w = None \<longrightarrow>
      list_all (\<lambda>ev. ev = LogInfo (ReloadMsg vid (filter (\<lambda>m. case mod_id m of None \<Rightarrow> False
                                            | Some i \<Rightarrow> string_includes i vid) ms)))
        (snd (invalidateModule opts ms w)) \<and>
      (logger_returns opts \<longrightarrow>
         invalidateModule opts ms w =
           (Inr (Some (filter (\<lambda>m. case mod_id m of None \<Rightarrow> False
                                   | Some i \<Rightarrow> string_includes i vid) ms)),
            info_events opts
              (ReloadMsg vid (filter (\<lambda>m. case mod_id m of None \<Rightarrow> False
                                          | Some i \<Rightarrow> string_includes i vid) ms))))) \<and>
   ((serverRef w = None \<or> falsy_string (resolvedVirtualId w) \<or> environment w = None) \<and>
    fileManager opts (fs w) = (Inr (g, st), fs1) \<and>
    generationCoordinator opts (canonicalize (JObject g)) (root opts) fs1 = (Inr gen, fs2) \<and>
    logger_returns opts \<and> callback_returns opts \<longrightarrow>
      (\<exists>modulesResult.
         fst (invalidateModule opts ms w) = Inr modulesResult \<and>
         fst (rebuild S opts reason ms w) =
           Inr \<lparr>modules = (case modulesResult of None \<Rightarrow> [] | Some m \<Rightarrow> m),
                grouped = canonicalize (JObject g),
                jsonText = S (canonicalize (JObject g))\<rparr>))"
proof (intro conjI impI allI)
  assume u: "serverRef w = None \<or> falsy_string (resolvedVirtualId w)"
  show "snd (invalidateModule opts ms w)
        = warn_events opts (NotFoundMsg (serverRef w \<noteq> None)
                                        (\<not> falsy_string (resolvedVirtualId w)))"
    by (simp add: invalidateModule_unwired [OF u] returning_def warn_calls_def warn_events_def
        split: option.splits)
  show "fst (invalidateModule opts ms w) = Inr None" if "logger_returns opts"
    by (simp add: invalidateModule_unwired [OF u] returning_def logger_returns_calls [OF that])
  fix l e
  assume t: "logger opts = Some l \<and>
             warn l (NotFoundMsg (serverRef w \<noteq> None)
                                 (\<not> falsy_string (resolvedVirtualId w))) = Some e"
  then have i: "invalidateModule opts ms w =
      (Inl e, [LogWarn (NotFoundMsg (serverRef w \<noteq> None)
                                    (\<not> falsy_string (resolvedVirtualId w)))])"
    by (simp add: invalidateModule_unwired [OF u] returning_def warn_calls_def
        del: not_None_eq)
  then show "fst (invalidateModule opts ms w) = Inl e" by simp
  assume c: "(\<forall>msg. info l msg = None) \<and>
          fileManager opts (fs w) = (Inr (g, st), fs1) \<and>
          generationCoordinator opts (canonicalize (JObject g)) (root opts) fs1
            = (Inr gen, fs2)"
  with t have "first_error (info_calls opts msg) = None" for msg
    by (simp add: info_calls_def)
  from rebuild_invalidate_throws [OF c [THEN conjunct2, THEN conjunct1]
      c [THEN conjunct2, THEN conjunct2] this i, of S reason] t
  show "rebuild S opts reason ms w =
              (Inl e,
               host_effect w fs2
                 [ReadAndGroup, LogInfo (ReadGroupMsg st),
                  GenerateFiles (canonicalize (JObject g)) (root opts),
                  LogInfo (GeneratedMsg gen),
                  LogWarn (NotFoundMsg (serverRef w \<noteq> None)
                                       (\<not> falsy_string (resolvedVirtualId w)))])"
    by (simp add: info_events_def info_calls_def del: canonicalize.simps not_None_eq)
next
  let ?f = "filter (\<lambda>m. case mod_id m of None \<Rightarrow> False | Some i \<Rightarrow> string_includes i vid) ms"
  assume h: "serverRef w = Some s \<and> resolvedVirtualId w = Some vid \<and> vid \<noteq> [] \<and>
    environment w = None"
  then have k: "serverRef w = Some s" "resolvedVirtualId w = Some vid" "vid \<noteq> []"
    and n: "environment w = None" by simp_all
  show "list_all (\<lambda>ev. ev = LogInfo (ReloadMsg vid ?f)) (snd (invalidateModule opts ms w))"
    by (simp add: invalidateModule_wired [OF k] n call_defs split: option.splits)
  have "environment_returns w" using n by (simp add: environment_returns_def)
  moreover have "reload_events w = []" using n by (simp add: call_defs)
  ultimately show "invalidateModule opts ms w = (Inr (Some ?f), info_events opts (ReloadMsg vid ?f))"
    if "logger_returns opts"
    using invalidateModule_wired_returns [OF k _ that, of ms] by simp
next
  assume a: "(serverRef w = None \<or> falsy_string (resolvedVirtualId w) \<or> environment w = None) \<and>
    fileManager opts (fs w) = (Inr (g, st), fs1) \<and>
    generationCoordinator opts (canonicalize (JObject g)) (root opts) fs1 = (Inr gen, fs2) \<and>
    logger_returns opts \<and> callback_returns opts"
  then have fm: "fileManager opts (fs w) = (Inr (g, st), fs1)"
    and gc: "generationCoordinator opts (canonicalize (JObject g)) (root opts) fs1 = (Inr gen, fs2)"
    and l: "logger_returns opts" and c: "callback_returns opts" by simp_all
  have "\<exists>modulesResult. fst (invalidateModule opts ms w) = Inr modulesResult"
  proof (cases "serverRef w = None \<or> falsy_string (resolvedVirtualId w)")
    case True
    then show ?thesis
      by (simp add: invalidateModule_unwired returning_def logger_returns_calls [OF l])
  next
    case False
    with a have "environment w = None" by blast
    then have "environment_returns w" by (simp add: environment_returns_def)
    with l show ?thesis by (rule invalidateModule_returns)
  qed
  then obtain modulesResult invalidated where
    i: "invalidateModule opts ms w = (Inr modulesResult, invalidated)"
    by (cases "invalidateModule opts ms w") auto
  then have "fst (invalidateModule opts ms w) = Inr modulesResult" by simp
  with rebuild_success [OF fm gc l c i, of S reason]
  show "\<exists>modulesResult.
         fst (invalidateModule opts ms w) = Inr modulesResult \<and>
         fst (rebuild S opts reason ms w) =
           Inr \<lparr>modules = (case modulesResult of None \<Rightarrow> [] | Some m \<Rightarrow> m),
                grouped = canonicalize (JObject g),
                jsonText = S (canonicalize (JObject g))\<rparr>"
    by (intro exI [of _ modulesResult]) (simp del: canonicalize.simps)
qed

theorem invalidation_without_wiring_witness:
  "serverRef demo_unwired = None \<and>
   snd (invalidateModule demo_options [demo_module_virtual] demo_unwired)
     = [LogWarn (NotFoundMsg False False)] \<and>
   logger_returns demo_options \<and> callback_returns demo_options \<and>
   fst (invalidateModule demo_options [demo_module_virtual] demo_unwired) = Inr None \<and>
   fileManager demo_options (fs demo_unwired) = (Inr (demo_grouped, demo_stats), 1) \<and>
   generationCoordinator demo_options (canonicalize (JObject demo_grouped)) (root demo_options) 1
     = (Inr demo_generated, 1) \<and>
   fst (rebuild demo_stringify demo_options ''change'' [demo_module_virtual] demo_unwired)
     = Inr \<lparr>modules = [], grouped = demo_canonical,
            jsonText = demo_stringify demo_canonical\<rparr> \<and>
   serverRef demo_server_only = Some ViteDevServer \<and>
   resolvedVirtualId demo_server_only = Some demo_virtual_id \<and> demo_virtual_id \<noteq> [] \<and>
   environment demo_server_only = None \<and>
   invalidateModule demo_options [demo_module_other] demo_server_only
     = (Inr (Some []), [LogInfo (ReloadMsg demo_virtual_id [])]) \<and>
   logger demo_options_logger_throwing = Some demo_logger_throwing \<and>
   warn demo_logger_throwing (NotFoundMsg False False) = Some (JsError ''EPIPE'') \<and>
   fst (invalidateModule demo_options_logger_throwing [demo_module_virtual] demo_unwired)
     = Inl (JsError ''EPIPE'') \<and>
   rebuild demo_stringify demo_options_logger_throwing ''change'' [demo_module_virtual]
     demo_unwired
     = (Inl (JsError ''EPIPE''),
        host_effect demo_unwired 1
          [ReadAndGroup, LogInfo (ReadGroupMsg demo_stats),
           GenerateFiles demo_canonical ''/app'', LogInfo (GeneratedMsg demo_generated),
           LogWarn (NotFoundMsg False False)])"
proof -
  have a: "serverRef demo_unwired = None"
    and a': "(serverRef demo_unwired \<noteq> None) = False"
      "(\<not> falsy_string (resolvedVirtualId demo_unwired)) = False"
    by (simp_all add: demo_defs falsy_string_def)
  have b: "serverRef demo_server_only = Some ViteDevServer"
    "resolvedVirtualId demo_server_only = Some demo_virtual_id" "demo_virtual_id \<noteq> []"
    "environment demo_server_only = None"
    by (simp_all add: demo_defs)
  have f: "filter (\<lambda>m. case mod_id m of None \<Rightarrow> False
                       | Some i \<Rightarrow> string_includes i demo_virtual_id) [demo_module_other] = []"
    by (simp add: demo_defs)
  have r: "logger_returns demo_options" "callback_returns demo_options"
    by (rule demo_parts_return)+
  have e: "warn_events demo_options (NotFoundMsg False False)
             = [LogWarn (NotFoundMsg False False)]"
    "info_events demo_options (ReloadMsg demo_virtual_id [])
             = [LogInfo (ReloadMsg demo_virtual_id [])]"
    by (simp_all add: demo_defs call_defs)
  have t: "logger demo_options_logger_throwing = Some demo_logger_throwing"
    "warn demo_logger_throwing (NotFoundMsg False False) = Some (JsError ''EPIPE'')"
    "\<forall>msg. info demo_logger_throwing msg = None"
    "root demo_options_logger_throwing = ''/app''"
    by (simp_all add: demo_defs)
  note c = demo_collaborators(1,2)
  note d = demo_collaborators_logger_throwing
  note u = invalidation_without_wiring
         [where w = demo_unwired and opts = demo_options and ms = "[demo_module_virtual]"
            and g = demo_grouped and st = demo_stats and ?fs1.0 = 1 and gen = demo_generated
            and ?fs2.0 = 1 and S = demo_stringify and reason = "''change''"
            and s = ViteDevServer and vid = demo_virtual_id]
  note u1 = u [THEN conjunct1, THEN mp, OF disjI1, OF a, unfolded a' e]
  have 1: "snd (invalidateModule demo_options [demo_module_virtual] demo_unwired)
     = [LogWarn (NotFoundMsg False False)]"
    by (rule u1 [THEN conjunct1])
  have 2: "fst (invalidateModule demo_options [demo_module_virtual] demo_unwired) = Inr None"
    by (rule u1 [THEN conjunct2, THEN conjunct1, THEN mp, OF r(1)])
  from u [THEN conjunct2, THEN conjunct2, THEN mp, OF conjI, OF disjI1, OF a] c r
  obtain modulesResult where
    "fst (invalidateModule demo_options [demo_module_virtual] demo_unwired) = Inr modulesResult"
    "fst (rebuild demo_stringify demo_options ''change'' [demo_module_virtual] demo_unwired)
       = Inr \<lparr>modules = (case modulesResult of None \<Rightarrow> [] | Some m \<Rightarrow> m),
              grouped = canonicalize (JObject demo_grouped),
              jsonText = demo_stringify (canonicalize (JObject demo_grouped))\<rparr>"
    by blast
  with 2 have 3: "fst (rebuild demo_stringify demo_options ''change'' [demo_module_virtual]
                         demo_unwired)
     = Inr \<lparr>modules = [], grouped = demo_canonical,
            jsonText = demo_stringify demo_canonical\<rparr>"
    by (simp add: demo_canonicalize del: canonicalize.simps)
  note v = invalidation_without_wiring
         [where w = demo_server_only and opts = demo_options and ms = "[demo_module_other]"
            and g = demo_grouped and st = demo_stats and ?fs1.0 = 1 and gen = demo_generated
            and ?fs2.0 = 1 and S = demo_stringify and reason = "''change''"
            and s = ViteDevServer and vid = demo_virtual_id]
  have 4: "invalidateModule demo_options [demo_module_other] demo_server_only
     = (Inr (Some []), [LogInfo (ReloadMsg demo_virtual_id [])])"
    using v [THEN conjunct2, THEN conjunct1, THEN mp, THEN conjunct2, THEN mp, OF _ r(1)] b
    unfolding f e by simp
  note x = invalidation_without_wiring
         [where w = demo_unwired and opts = demo_options_logger_throwing
            and ms = "[demo_module_virtual]"
            and g = demo_grouped and st = demo_stats and ?fs1.0 = 1 and gen = demo_generated
            and ?fs2.0 = 1 and S = demo_stringify and reason = "''change''"
            and s = ViteDevServer and vid = demo_virtual_id]
  note x1 = x [THEN conjunct1, THEN mp, OF disjI1, OF a, unfolded a',
               THEN conjunct2, THEN conjunct2, rule_format, OF conjI, OF t(1,2)]
  have 5: "fst (invalidateModule demo_options_logger_throwing [demo_module_virtual] demo_unwired)
     = Inl (JsError ''EPIPE'')"
    by (rule x1 [THEN conjunct1])
  have 6: "rebuild demo_stringify demo_options_logger_throwing ''change'' [demo_module_virtual]
     demo_unwired
     = (Inl (JsError ''EPIPE''),
        host_effect demo_unwired 1
          [ReadAndGroup, LogInfo (ReadGroupMsg demo_stats),
           GenerateFiles demo_canonical ''/app'', LogInfo (GeneratedMsg demo_generated),
           LogWarn (NotFoundMsg False False)])"
    using x1 [THEN conjunct2] t(3) d unfolding demo_canonicalize t(4) by simp
  show ?thesis
    by (intro conjI) (rule a b r c t(1,2) 1 2 3 4 5 6)+
qed

text \<open>
  C5, as stated, fails on the triple. When the wiring is missing, the invalidation step
  returns \<^verbatim>\<open>undefined\<close>; the completion callback is handed \<^verbatim>\<open>modules: undefined\<close>, while the
  caller of \<^verbatim>\<open>rebuild\<close> receives \<^verbatim>\<open>modules: []\<close> (the source writes \<^verbatim>\<open>modulesResult ?? []\<close> in
  the returned object only).
\<close>

theorem rebuild_callback_triple_counterexample:
  "rebuild demo_stringify demo_options ''change'' [demo_module_virtual] demo_unwired
     = (Inr \<lparr>modules = [], grouped = demo_canonical,
             jsonText = demo_stringify demo_canonical\<rparr>,
        host_effect demo_unwired 1
          [ReadAndGroup, LogInfo (ReadGroupMsg demo_stats),
           GenerateFiles demo_canonical ''/app'', LogInfo (GeneratedMsg demo_generated),
           LogWarn (NotFoundMsg False False),
           RebuildComplete \<lparr>cache_modules = None, cache_grouped = demo_canonical,
                            cache_jsonText = demo_stringify demo_canonical\<rparr>,
           LogInfo (RebuildCompleteMsg ''change'' [''en''])])"
proof -
  have t: "root demo_options = ''/app''" "Object_keys demo_canonical = [''en'']"
    "info_events demo_options msg = [LogInfo msg]"
    "callback_events demo_options cache = [RebuildComplete cache]" for msg cache
    by (simp_all add: demo_defs call_defs property_order_def array_index_def)
  show ?thesis
    by (simp add: rebuild_success [OF demo_collaborators(1,2) demo_parts_return(1,2)
          demo_invalidate_unwired] demo_canonicalize t
        del: canonicalize.simps)
qed

text \<open>
  C5, amended. Every invocation of \<^verbatim>\<open>rebuild\<close> in which both collaborators return and no
  call of the logger or of the environment throws runs the phases in this order:
  \<^verbatim>\<open>readAndGroup\<close>, canonicalization (whose result is what \<^verbatim>\<open>generateFiles\<close> is called with),
  \<^verbatim>\<open>generateFiles\<close>, invalidation; then the completion callback, if one is configured, is
  invoked with the canonical document, its serialized text and the modules returned by the
  invalidation step, which may be undefined. When the callback returns, the caller receives
  the same document and text, and the same modules, or the empty list when the
  invalidation step returned none. When the callback throws, \<^verbatim>\<open>rebuild\<close> throws that error
  and the caller receives nothing.
\<close>

theorem rebuild_phases_in_order:
  assumes "fileManager opts (fs w) = (Inr (g, st), fs1)"
    and "generationCoordinator opts (canonicalize (JObject g)) (root opts) fs1 = (Inr gen, fs2)"
    and "logger_returns opts" and "environment_returns w"
  shows "\<exists>modulesResult invalidated.
           invalidateModule opts ms w = (Inr modulesResult, invalidated) \<and>
           (callback_returns opts \<longrightarrow>
              rebuild S opts reason ms w =
                (Inr \<lparr>modules = (case modulesResult of None \<Rightarrow> [] | Some m \<Rightarrow> m),
                      grouped = canonicalize (JObject g),
                      jsonText = S (canonicalize (JObject g))\<rparr>,
                 host_effect w fs2
                   ([ReadAndGroup] @ info_events opts (ReadGroupMsg st) @
                    [GenerateFiles (canonicalize (JObject g)) (root opts)] @
                    info_events opts (GeneratedMsg gen) @
                    invalidated @
                    callback_events opts
                      \<lparr>cache_modules = modulesResult,
                       cache_grouped = canonicalize (JObject g),
                       cache_jsonText = S (canonicalize (JObject g))\<rparr> @
                    info_events opts
                      (RebuildCompleteMsg reason (Object_keys (canonicalize (JObject g))))))) \<and>
           (\<forall>callback e.
              onRebuildComplete opts = Some callback \<and>
              callback \<lparr>cache_modules = modulesResult,
                        cache_grouped = canonicalize (JObject g),
                        cache_jsonText = S (canonicalize (JObject g))\<rparr> = Some e \<longrightarrow>
              rebuild S opts reason ms w =
                (Inl e,
                 host_effect w fs2
                   ([ReadAndGroup] @ info_events opts (ReadGroupMsg st) @
                    [GenerateFiles (canonicalize (JObject g)) (root opts)] @
                    info_events opts (GeneratedMsg gen) @
                    invalidated @
                    [RebuildComplete
                       \<lparr>cache_modules = modulesResult,
                        cache_grouped = canonicalize (JObject g),
                        cache_jsonText = S (canonicalize (JObject g))\<rparr>])))"
proof -
  from invalidateModule_returns [OF assms(3,4), of ms]
  obtain modulesResult invalidated where
    i: "invalidateModule opts ms w = (Inr modulesResult, invalidated)"
    by (cases "invalidateModule opts ms w") auto
  show ?thesis
  proof (intro exI [of _ modulesResult] exI [of _ invalidated] conjI impI allI)
    show "invalidateModule opts ms w = (Inr modulesResult, invalidated)" by (rule i)
  next
    assume "callback_returns opts"
    from rebuild_success [OF assms(1-3) this i]
    show "rebuild S opts reason ms w =
                (Inr \<lparr>modules = (case modulesResult of None \<Rightarrow> [] | Some m \<Rightarrow> m),
                      grouped = canonicalize (JObject g),
                      jsonText = S (canonicalize (JObject g))\<rparr>,
                 host_effect w fs2
                   ([ReadAndGroup] @ info_events opts (ReadGroupMsg st) @
                    [GenerateFiles (canonicalize (JObject g)) (root opts)] @
                    info_events opts (GeneratedMsg gen) @
                    invalidated @
                    callback_events opts
                      \<lparr>cache_modules = modulesResult,
                       cache_grouped = canonicalize (JObject g),
                       cache_jsonText = S (canonicalize (JObject g))\<rparr> @
                    info_events opts
                      (RebuildCompleteMsg reason (Object_keys (canonicalize (JObject g))))))" .
  next
    fix callback e
    assume "onRebuildComplete opts = Some callback \<and>
              callback \<lparr>cache_modules = modulesResult,
                        cache_grouped = canonicalize (JObject g),
                        cache_jsonText = S (canonicalize (JObject g))\<rparr> = Some e"
    then have "onRebuildComplete opts = Some callback"
      "callback \<lparr>cache_modules = modulesResult,
                        cache_grouped = canonicalize (JObject g),
                        cache_jsonText = S (canonicalize (JObject g))\<rparr> = Some e"
      by blast+
    from rebuild_callback_error [where S = S, OF assms(1-3) i this]
    show "rebuild S opts reason ms w =
                (Inl e,
                 host_effect w fs2
                   ([ReadAndGroup] @ info_events opts (ReadGroupMsg st) @
                    [GenerateFiles (canonicalize (JObject g)) (root opts)] @
                    info_events opts (GeneratedMsg gen) @
                    invalidated @
                    [RebuildComplete
                       \<lparr>cache_modules = modulesResult,
                        cache_grouped = canonicalize (JObject g),
                        cache_jsonText = S (canonicalize (JObject g))\<rparr>]))" .
  qed
qed

theorem rebuild_phases_in_order_witness:
  "fileManager demo_options (fs demo_wired) = (Inr (demo_grouped, demo_stats), 1) \<and>
   generationCoordinator demo_options (canonicalize (JObject demo_grouped)) (root demo_options) 1
     = (Inr demo_generated, 1) \<and>
   logger_returns demo_options \<and> environment_returns demo_wired \<and>
   callback_returns demo_options \<and>
   rebuild demo_stringify demo_options ''change''
     [demo_module_other, demo_module_virtual] demo_wired
     = (Inr \<lparr>modules = [demo_module_virtual], grouped = demo_canonical,
             jsonText = demo_stringify demo_canonical\<rparr>,
        host_effect demo_wired 1
          [ReadAndGroup, LogInfo (ReadGroupMsg demo_stats),
           GenerateFiles demo_canonical ''/app'', LogInfo (GeneratedMsg demo_generated),
           InvalidateAll, HotSend FullReload,
           LogInfo (ReloadMsg demo_virtual_id [demo_module_virtual]),
           RebuildComplete \<lparr>cache_modules = Some [demo_module_virtual],
                            cache_grouped = demo_canonical,
                            cache_jsonText = demo_stringify demo_canonical\<rparr>,
           LogInfo (RebuildCompleteMsg ''change'' [''en''])]) \<and>
   fileManager demo_options_silent_callback_throwing (fs demo_wired)
     = (Inr (demo_grouped, demo_stats), 1) \<and>
   generationCoordinator demo_options_silent_callback_throwing
     (canonicalize (JObject demo_grouped)) (root demo_options_silent_callback_throwing) 1
     = (Inr demo_generated, 1) \<and>
   logger_returns demo_options_silent_callback_throwing \<and>
   onRebuildComplete demo_options_silent_callback_throwing = Some demo_callback_throwing \<and>
   demo_callback_throwing
     \<lparr>cache_modules = Some [demo_module_virtual], cache_grouped = demo_canonical,
      cache_jsonText = demo_stringify demo_canonical\<rparr> = Some (JsError ''listener failed'') \<and>
   rebuild demo_stringify demo_options_silent_callback_throwing ''change''
     [demo_module_other, demo_module_virtual] demo_wired
     = (Inl (JsError ''listener failed''),
        host_effect demo_wired 1
          [ReadAndGroup, GenerateFiles demo_canonical ''/app'',
           InvalidateAll, HotSend FullReload,
           RebuildComplete \<lparr>cache_modules = Some [demo_module_virtual],
                            cache_grouped = demo_canonical,
                            cache_jsonText = demo_stringify demo_canonical\<rparr>])"
proof -
  have t: "root demo_options = ''/app''" "Object_keys demo_canonical = [''en'']"
    "info_events demo_options msg = [LogInfo msg]"
    "callback_events demo_options cache = [RebuildComplete cache]" for msg cache
    by (simp_all add: demo_defs call_defs property_order_def array_index_def)
  have t': "root demo_options_silent_callback_throwing = ''/app''"
    "info_events demo_options_silent_callback_throwing msg = []" for msg
    by (simp_all add: demo_defs call_defs)
  have i: "invalidateModule demo_options [demo_module_other, demo_module_virtual] demo_wired
      = (Inr (Some [demo_module_virtual]),
         [InvalidateAll, HotSend FullReload,
          LogInfo (ReloadMsg demo_virtual_id [demo_module_virtual])])"
    by (simp add: invalidateModule_def demo_defs falsy_string_def truthy_array_def Let_def
        call_defs)
  have i': "invalidateModule demo_options_silent_callback_throwing
              [demo_module_other, demo_module_virtual] demo_wired
      = (Inr (Some [demo_module_virtual]), [InvalidateAll, HotSend FullReload])"
    by (simp add: invalidateModule_def demo_defs falsy_string_def truthy_array_def Let_def
        call_defs)
  have r: "logger_returns demo_options" "environment_returns demo_wired"
    "callback_returns demo_options"
    by (rule demo_parts_return)+
  have r': "logger_returns demo_options_silent_callback_throwing"
    by (simp add: logger_returns_def demo_defs)
  have k: "onRebuildComplete demo_options_silent_callback_throwing = Some demo_callback_throwing"
    "demo_callback_throwing
       \<lparr>cache_modules = Some [demo_module_virtual], cache_grouped = demo_canonical,
        cache_jsonText = demo_stringify demo_canonical\<rparr> = Some (JsError ''listener failed'')"
    by (simp_all add: demo_defs)
  note c = demo_collaborators(3,2)
  note d = demo_collaborators_callback_throwing
  from rebuild_phases_in_order [OF c r(1,2), of "[demo_module_other, demo_module_virtual]"
         demo_stringify "''change''"]
  have 1: "rebuild demo_stringify demo_options ''change''
     [demo_module_other, demo_module_virtual] demo_wired
     = (Inr \<lparr>modules = [demo_module_virtual], grouped = demo_canonical,
             jsonText = demo_stringify demo_canonical\<rparr>,
        host_effect demo_wired 1
          [ReadAndGroup, LogInfo (ReadGroupMsg demo_stats),
           GenerateFiles demo_canonical ''/app'', LogInfo (GeneratedMsg demo_generated),
           InvalidateAll, HotSend FullReload,
           LogInfo (ReloadMsg demo_virtual_id [demo_module_virtual]),
           RebuildComplete \<lparr>cache_modules = Some [demo_module_virtual],
                            cache_grouped = demo_canonical,
                            cache_jsonText = demo_stringify demo_canonical\<rparr>,
           LogInfo (RebuildCompleteMsg ''change'' [''en''])])"
    unfolding i demo_canonicalize t using r(3) by auto
  from rebuild_phases_in_order [OF d r' r(2), of "[demo_module_other, demo_module_virtual]"
         demo_stringify "''change''"]
  have 2: "rebuild demo_stringify demo_options_silent_callback_throwing ''change''
     [demo_module_other, demo_module_virtual] demo_wired
     = (Inl (JsError ''listener failed''),
        host_effect demo_wired 1
          [ReadAndGroup, GenerateFiles demo_canonical ''/app'',
           InvalidateAll, HotSend FullReload,
           RebuildComplete \<lparr>cache_modules = Some [demo_module_virtual],
                            cache_grouped = demo_canonical,
                            cache_jsonText = demo_stringify demo_canonical\<rparr>])"
    unfolding i' demo_canonicalize t' using k by auto
  show ?thesis
    by (intro conjI) (rule c d r r' k 1 2)+
qed

section \<open>Debouncing\<close>

lemma timers_update_same: "timers w = xs \<Longrightarrow> w\<lparr>timers := xs\<rparr> = w"
  by auto

text \<open>The two ways through \<^verbatim>\<open>debouncedRebuild\<close>, from a world whose armed timers are tracked.\<close>

lemma clear_as_update:
  assumes "timers_tracked w"
  shows "(case rebuildTimer w of None \<Rightarrow> w | Some h \<Rightarrow> clearTimeout h w) = w\<lparr>timers := []\<rparr>"
proof (cases "rebuildTimer w")
  case None
  with assms have "timers w = []"
    by (cases "timers w") (simp_all add: timers_tracked_def)
  with None show ?thesis by (simp add: timers_update_same)
next
  case (Some h)
  with assms have "filter (\<lambda>t. handle t \<noteq> h) (timers w) = []"
    by (simp add: timers_tracked_def filter_empty_conv list_all_iff)
  with Some show ?thesis by (simp add: clearTimeout_def)
qed

lemma debouncedRebuild_arm:
  assumes "timers_tracked w"
    and "now - (if lastRebuildCall w = 0 then now else lastRebuildCall w) < MAX_WAIT_MS"
  shows "debouncedRebuild S opts now reason ms w =
           (length (promises w),
            w\<lparr>lastRebuildCall := (if lastRebuildCall w = 0 then now else lastRebuildCall w),
              promises := promises w @ [Pending],
              timers := [\<lparr>handle = next_handle w, due = now + DEBOUNCE_MS,
                          timer_reason = reason, timer_modules = ms,
                          timer_promise = length (promises w)\<rparr>],
              next_handle := Suc (next_handle w),
              rebuildTimer := Some (next_handle w)\<rparr>)"
proof -
  define w1 where "w1 = (if lastRebuildCall w = 0 then w\<lparr>lastRebuildCall := now\<rparr> else w)"
  have tr1: "timers_tracked w1"
    using assms(1) by (simp add: w1_def timers_tracked_def)
  have l1: "lastRebuildCall w1 = (if lastRebuildCall w = 0 then now else lastRebuildCall w)"
    by (simp add: w1_def)
  have w1_eq: "w1 = w\<lparr>lastRebuildCall := (if lastRebuildCall w = 0 then now else lastRebuildCall w)\<rparr>"
    by (simp add: w1_def)
  have "debouncedRebuild S opts now reason ms w =
      (let w2 = w1\<lparr>timers := []\<rparr>
       in if MAX_WAIT_MS \<le> now - lastRebuildCall w2 then
            let (r, w3) = rebuild S opts reason ms (w2\<lparr>lastRebuildCall := 0\<rparr>)
            in (length (promises w3), w3\<lparr>promises := promises w3 @ [settled r]\<rparr>)
          else
            let p = length (promises w2); h = next_handle w2
            in (p, w2\<lparr>promises := promises w2 @ [Pending],
                     timers := timers w2 @
                       [\<lparr>handle = h, due = now + DEBOUNCE_MS, timer_reason = reason,
                         timer_modules = ms, timer_promise = p\<rparr>],
                     next_handle := Suc h, rebuildTimer := Some h\<rparr>))"
    unfolding debouncedRebuild_def w1_def [symmetric] Let_def clear_as_update [OF tr1] ..
  also have "\<dots> = (length (promises w),
            w\<lparr>lastRebuildCall := (if lastRebuildCall w = 0 then now else lastRebuildCall w),
              promises := promises w @ [Pending],
              timers := [\<lparr>handle = next_handle w, due = now + DEBOUNCE_MS,
                          timer_reason = reason, timer_modules = ms,
                          timer_promise = length (promises w)\<rparr>],
              next_handle := Suc (next_handle w),
              rebuildTimer := Some (next_handle w)\<rparr>)"
    using assms(2) by (simp add: Let_def l1) (simp add: w1_eq)
  finally show ?thesis .
qed

lemma debouncedRebuild_immediate:
  assumes "timers_tracked w"
    and "lastRebuildCall w \<noteq> 0" and "MAX_WAIT_MS \<le> now - lastRebuildCall w"
  shows "debouncedRebuild S opts now reason ms w =
           (length (promises w),
            (snd (rebuild S opts reason ms (w\<lparr>timers := [], lastRebuildCall := 0\<rparr>)))
              \<lparr>promises := promises w @
                 [settled (fst (rebuild S opts reason ms
                                  (w\<lparr>timers := [], lastRebuildCall := 0\<rparr>)))]\<rparr>)"
proof -
  let ?w0 = "w\<lparr>timers := [], lastRebuildCall := 0\<rparr>"
  obtain r f es where rb: "rebuild S opts reason ms ?w0 = (r, host_effect ?w0 f es)"
    by (rule rebuild_shape [of S opts reason ms ?w0]) blast
  have "debouncedRebuild S opts now reason ms w =
      (let w2 = w\<lparr>timers := []\<rparr>
       in if MAX_WAIT_MS \<le> now - lastRebuildCall w2 then
            let (r, w3) = rebuild S opts reason ms (w2\<lparr>lastRebuildCall := 0\<rparr>)
            in (length (promises w3), w3\<lparr>promises := promises w3 @ [settled r]\<rparr>)
          else
            let p = length (promises w2); h = next_handle w2
            in (p, w2\<lparr>promises := promises w2 @ [Pending],
                     timers := timers w2 @
                       [\<lparr>handle = h, due = now + DEBOUNCE_MS, timer_reason = reason,
                         timer_modules = ms, timer_promise = p\<rparr>],
                     next_handle := Suc h, rebuildTimer := Some h\<rparr>))"
    unfolding debouncedRebuild_def Let_def using assms(2)
    by (simp only: if_False clear_as_update [OF assms(1)])
  also have "\<dots> = (length (promises w),
            (snd (rebuild S opts reason ms ?w0))
              \<lparr>promises := promises w @ [settled (fst (rebuild S opts reason ms ?w0))]\<rparr>)"
    using assms(3) by (simp add: Let_def rb)
  finally show ?thesis .
qed

text \<open>The event loop when nothing is due, and when exactly one timer is armed and due.\<close>

lemma advance_nothing_due:
  assumes "\<forall>t \<in> set (timers w). T < due t"
  shows "advance S opts T w = w"
proof -
  from assms have "filter (\<lambda>t. due t \<le> T) (timers w) = []"
    by (auto simp: filter_empty_conv)
  moreover from assms have "filter (\<lambda>t. \<not> due t \<le> T) (timers w) = timers w"
    by (auto simp: filter_id_conv)
  ultimately show ?thesis
    by (simp add: advance_def timers_update_same)
qed

lemma advance_one_due:
  assumes "timers w = [t]" and "due t \<le> T"
  shows "advance S opts T w = timer_callback S opts t (w\<lparr>timers := []\<rparr>)"
  using assms by (simp add: advance_def)

text \<open>
  The timer callback, seen from a world \<open>w0\<close> with the same collaborator state and wiring:
  it runs the pipeline once, and it settles the promise only when the pipeline returns.
\<close>

lemma timer_callback_outcome:
  assumes "same_inputs w0 w"
  obtains r f es where
    "rebuild S opts (timer_reason t) (timer_modules t) w0 = (r, host_effect w0 f es)"
    and "length (filter (\<lambda>e. e = ReadAndGroup) es) = 1"
    and "timer_callback S opts t w =
           (case r of
              Inr v \<Rightarrow> w\<lparr>lastRebuildCall := 0, fs := f, trace := trace w @ es,
                         promises := (promises w)[timer_promise t := Fulfilled v]\<rparr>
            | Inl e \<Rightarrow> w\<lparr>lastRebuildCall := 0, fs := f,
                         trace := trace w @ es @ [UnhandledRejection e]\<rparr>)"
proof -
  obtain r f es where
    rb: "rebuild S opts (timer_reason t) (timer_modules t) w0 = (r, host_effect w0 f es)"
    and same: "\<And>w'. same_inputs w0 w' \<Longrightarrow>
           rebuild S opts (timer_reason t) (timer_modules t) w' = (r, host_effect w' f es)"
    and one: "length (filter (\<lambda>e. e = ReadAndGroup) es) = 1"
    by (rule rebuild_shape [of S opts "timer_reason t" "timer_modules t" w0]) blast
  from assms have "same_inputs w0 (w\<lparr>lastRebuildCall := 0\<rparr>)"
    by (simp add: same_inputs_def same_wiring_def)
  from same [OF this]
  have "timer_callback S opts t w =
           (case r of
              Inr v \<Rightarrow> w\<lparr>lastRebuildCall := 0, fs := f, trace := trace w @ es,
                         promises := (promises w)[timer_promise t := Fulfilled v]\<rparr>
            | Inl e \<Rightarrow> w\<lparr>lastRebuildCall := 0, fs := f,
                         trace := trace w @ es @ [UnhandledRejection e]\<rparr>)"
    by (simp add: timer_callback_def emit_def host_effect_def split: sum.splits)
  with rb one show ?thesis by (rule that)
qed

text \<open>
  A call that comes while a window is open, before the armed timer is due and before the
  max-wait threshold: no pipeline runs, the caller receives a fresh pending promise, and
  the only timer armed afterwards is that of this call.
\<close>

lemma in_window_step:
  fixes reason :: string and ms :: "module_node list"
  assumes win: "in_window start prev w" and sp: "start \<le> prev" and lo: "prev \<le> now"
    and hi: "now < prev + DEBOUNCE_MS" and mw: "now - start < MAX_WAIT_MS"
  defines "w1 \<equiv> w\<lparr>lastRebuildCall := (if lastRebuildCall w = 0 then now else lastRebuildCall w),
              promises := promises w @ [Pending],
              timers := [\<lparr>handle = next_handle w, due = now + DEBOUNCE_MS,
                          timer_reason = reason, timer_modules = ms,
                          timer_promise = length (promises w)\<rparr>],
              next_handle := Suc (next_handle w),
              rebuildTimer := Some (next_handle w)\<rparr>"
  shows "debouncedRebuild S opts now reason ms (advance S opts now w) = (length (promises w), w1)"
    and "in_window start now w1"
proof -
  from win have tr: "timers_tracked w"
    and due: "\<forall>t \<in> set (timers w). prev + DEBOUNCE_MS \<le> due t"
    and last: "lastRebuildCall w = 0 \<or> start \<le> lastRebuildCall w"
    by (simp_all add: in_window_def list_all_iff)
  from due hi have "\<forall>t \<in> set (timers w). now < due t" by fastforce
  then have adv: "advance S opts now w = w" by (rule advance_nothing_due)
  from last mw have "now - (if lastRebuildCall w = 0 then now else lastRebuildCall w) < MAX_WAIT_MS"
    by (auto simp: MAX_WAIT_MS_def)
  from debouncedRebuild_arm [OF tr this, of S opts reason ms]
  show "debouncedRebuild S opts now reason ms (advance S opts now w) = (length (promises w), w1)"
    by (simp add: adv w1_def)
  from last lo sp show "in_window start now w1"
    by (auto simp: in_window_def timers_tracked_def w1_def)
qed

text \<open>
  A sequence of such calls: no pipeline runs, every caller receives a fresh pending promise,
  and the only timer left armed is that of the last call.
\<close>

lemma simulate_window:
  assumes "in_window start prev w" and "start \<le> prev" and "follows start prev trs"
  shows "fst (simulate S opts trs w) = [length (promises w) ..< length (promises w) + length trs] \<and>
         promises (snd (simulate S opts trs w)) = promises w @ replicate (length trs) Pending \<and>
         trace (snd (simulate S opts trs w)) = trace w \<and>
         same_inputs w (snd (simulate S opts trs w)) \<and>
         timers_tracked (snd (simulate S opts trs w)) \<and>
         (trs \<noteq> [] \<and> 0 < start \<longrightarrow>
            lastRebuildCall (snd (simulate S opts trs w))
              = (if lastRebuildCall w = 0 then at (hd trs) else lastRebuildCall w)) \<and>
         (trs \<noteq> [] \<longrightarrow>
            (\<exists>h. timers (snd (simulate S opts trs w)) =
                  [\<lparr>handle = h, due = at (last trs) + DEBOUNCE_MS,
                    timer_reason = trigger_reason (last trs),
                    timer_modules = trigger_modules (last trs),
                    timer_promise = length (promises w) + length trs - 1\<rparr>]))"
  using assms
proof (induction trs arbitrary: w prev)
  case Nil
  then show ?case by (simp add: same_inputs_def same_wiring_def in_window_def)
next
  case (Cons tr trs)
  define w1 where "w1 = w\<lparr>lastRebuildCall := (if lastRebuildCall w = 0 then at tr else lastRebuildCall w),
              promises := promises w @ [Pending],
              timers := [\<lparr>handle = next_handle w, due = at tr + DEBOUNCE_MS,
                          timer_reason = trigger_reason tr, timer_modules = trigger_modules tr,
                          timer_promise = length (promises w)\<rparr>],
              next_handle := Suc (next_handle w),
              rebuildTimer := Some (next_handle w)\<rparr>"
  from Cons.prems have lo: "prev \<le> at tr" and hi: "at tr < prev + DEBOUNCE_MS"
    and mw: "at tr - start < MAX_WAIT_MS"
    and rest: "follows start (at tr) trs"
    by simp_all
  from Cons.prems(2) lo have sp: "start \<le> at tr" by simp
  have step: "debouncedRebuild S opts (at tr) (trigger_reason tr) (trigger_modules tr)
                (advance S opts (at tr) w) = (length (promises w), w1)"
    unfolding w1_def by (rule in_window_step(1) [OF Cons.prems(1,2) lo hi mw])
  have win1: "in_window start (at tr) w1"
    unfolding w1_def by (rule in_window_step(2) [OF Cons.prems(1,2) lo hi mw])
  have sim: "simulate S opts (tr # trs) w
      = (length (promises w) # fst (simulate S opts trs w1), snd (simulate S opts trs w1))"
    by (simp add: step split: prod.splits)
  note IH = Cons.IH [OF win1 sp rest]
  have w1_fields: "promises w1 = promises w @ [Pending]" "trace w1 = trace w"
    "same_inputs w w1"
    "timers w1 = [\<lparr>handle = next_handle w, due = at tr + DEBOUNCE_MS,
                          timer_reason = trigger_reason tr, timer_modules = trigger_modules tr,
                          timer_promise = length (promises w)\<rparr>]"
    "lastRebuildCall w1 = (if lastRebuildCall w = 0 then at tr else lastRebuildCall w)"
    by (simp_all add: w1_def same_inputs_def same_wiring_def)
  have a: "fst (simulate S opts (tr # trs) w)
      = [length (promises w) ..< length (promises w) + length (tr # trs)]"
  proof -
    from IH have "fst (simulate S opts trs w1)
        = [length (promises w1) ..< length (promises w1) + length trs]"
      by blast
    then have "fst (simulate S opts trs w1)
        = [Suc (length (promises w)) ..< length (promises w) + length (tr # trs)]"
      by (simp add: w1_fields del: upt_Suc)
    moreover have "[length (promises w) ..< length (promises w) + length (tr # trs)]
        = length (promises w) # [Suc (length (promises w)) ..< length (promises w) + length (tr # trs)]"
      by (rule upt_conv_Cons) simp
    ultimately show ?thesis
      by (simp only: sim fst_conv)
  qed
  have b: "promises (snd (simulate S opts (tr # trs) w))
      = promises w @ replicate (length (tr # trs)) Pending"
    using IH by (simp add: sim w1_fields replicate_app_Cons_same del: simulate.simps)
  have c: "trace (snd (simulate S opts (tr # trs) w)) = trace w"
    using IH by (simp add: sim w1_fields del: simulate.simps)
  have d: "same_inputs w (snd (simulate S opts (tr # trs) w))"
    using IH w1_fields(3)
    by (simp add: sim same_inputs_def same_wiring_def del: simulate.simps)
  have e: "timers_tracked (snd (simulate S opts (tr # trs) w))"
    using IH by (simp add: sim del: simulate.simps)
  have f: "\<exists>h. timers (snd (simulate S opts (tr # trs) w)) =
                  [\<lparr>handle = h, due = at (last (tr # trs)) + DEBOUNCE_MS,
                    timer_reason = trigger_reason (last (tr # trs)),
                    timer_modules = trigger_modules (last (tr # trs)),
                    timer_promise = length (promises w) + length (tr # trs) - 1\<rparr>]"
  proof (cases "trs = []")
    case True
    then show ?thesis by (simp add: step w1_fields)
  next
    case False
    with IH show ?thesis by (simp add: sim w1_fields del: simulate.simps)
  qed
  have g: "lastRebuildCall (snd (simulate S opts (tr # trs) w))
              = (if lastRebuildCall w = 0 then at (hd (tr # trs)) else lastRebuildCall w)"
    if "0 < start"
  proof (cases "trs = []")
    case True
    then show ?thesis by (simp add: step w1_fields)
  next
    case False
    with IH that have "lastRebuildCall (snd (simulate S opts trs w1))
              = (if lastRebuildCall w1 = 0 then at (hd trs) else lastRebuildCall w1)"
      by blast
    moreover from that sp have "lastRebuildCall w1 \<noteq> 0"
      by (simp add: w1_fields)
    ultimately show ?thesis
      by (simp add: sim w1_fields del: simulate.simps)
  qed
  from a b c d e f g show ?case by blast
qed

text \<open>The triggers of a sorted timeline lie between the first and the last.\<close>

lemma sorted_between:
  fixes xs :: "int list"
  assumes "sorted xs" and "x \<in> set xs"
  shows "hd xs \<le> x \<and> x \<le> last xs"
  using assms
proof (induction xs)
  case Nil
  then show ?case by simp
next
  case (Cons a xs)
  show ?case
  proof (cases "xs = []")
    case True
    with Cons.prems show ?thesis by simp
  next
    case False
    from Cons.prems have s: "sorted xs" and le: "\<forall>y \<in> set xs. a \<le> y" by simp_all
    from False have "last xs \<in> set xs" by simp
    with le have "a \<le> last xs" by blast
    moreover have "x \<le> last xs" if "x \<in> set xs"
      using Cons.IH [OF s that] by simp
    ultimately show ?thesis
      using Cons.prems(2) le False by auto
  qed
qed

text \<open>
  A burst whose last trigger comes less than the debounce delay after its first is one
  coalesced window; so is, more generally, every sequence in which each call comes less
  than the debounce delay after the one before and less than the max-wait threshold after
  the first.
\<close>

lemma follows_burst:
  assumes "sorted (prev # map at trs)" and "start \<le> prev"
    and "\<forall>tr \<in> set trs. at tr < start + DEBOUNCE_MS"
  shows "follows start prev trs"
  using assms
proof (induction trs arbitrary: prev)
  case Nil
  then show ?case by simp
next
  case (Cons tr trs)
  from Cons.prems have "prev \<le> at tr" "sorted (at tr # map at trs)"
    "at tr < start + DEBOUNCE_MS" "\<forall>tr \<in> set trs. at tr < start + DEBOUNCE_MS"
    by simp_all
  with Cons.prems(2) Cons.IH [of "at tr"] show ?case
    by (simp add: DEBOUNCE_MS_def MAX_WAIT_MS_def)
qed

lemma burst_coalesced:
  assumes "trs \<noteq> []" and "sorted (map at trs)"
    and "at (last trs) - at (hd trs) < DEBOUNCE_MS"
  shows "coalesced trs"
proof -
  from assms(1) obtain tr rest where trs: "trs = tr # rest" by (cases trs) simp_all
  have "at x < at tr + DEBOUNCE_MS" if "x \<in> set rest" for x
  proof -
    from that trs have "at x \<in> set (map at trs)" by simp
    from sorted_between [OF assms(2) this] assms(1)
    have "at x \<le> at (last trs)" by (simp add: last_map)
    with assms(3) trs show ?thesis by simp
  qed
  with assms(2) trs have "follows (at tr) (at tr) rest"
    by (intro follows_burst) simp_all
  with trs show ?thesis by (simp add: coalesced_def)
qed

lemma coalesced_window:
  assumes "idle w" and "coalesced trs"
  shows "in_window (at (hd trs)) (at (hd trs)) w" and "follows (at (hd trs)) (at (hd trs)) trs"
    and "trs \<noteq> []"
proof -
  from assms(1) show "in_window (at (hd trs)) (at (hd trs)) w"
    by (simp add: idle_def in_window_def timers_tracked_def)
  from assms(2) show "follows (at (hd trs)) (at (hd trs)) trs" "trs \<noteq> []"
    by (cases trs; simp add: coalesced_def DEBOUNCE_MS_def MAX_WAIT_MS_def)+
qed

text \<open>
  The outcome of a burst: until the debounce delay after the last trigger has elapsed nothing
  has run; from then on the pipeline has run exactly once, no timer is armed, the promises of
  all callers but the last are pending, the last one is fulfilled if the pipeline returned
  and pending if it threw, and the manager is idle again.
\<close>

lemma burst_before_due:
  assumes "idle w" and "coalesced trs"
    and "T < at (last trs) + DEBOUNCE_MS"
  shows "advance S opts T (snd (simulate S opts trs w)) = snd (simulate S opts trs w)"
    and "trace (snd (simulate S opts trs w)) = trace w"
    and "length (timers (snd (simulate S opts trs w))) = 1"
proof -
  note win = coalesced_window [OF assms(1,2)]
  from simulate_window [OF win(1) order_refl win(2), of S opts] win(3)
  obtain h where tm: "timers (snd (simulate S opts trs w)) =
                  [\<lparr>handle = h, due = at (last trs) + DEBOUNCE_MS,
                    timer_reason = trigger_reason (last trs),
                    timer_modules = trigger_modules (last trs),
                    timer_promise = length (promises w) + length trs - 1\<rparr>]"
    and tr: "trace (snd (simulate S opts trs w)) = trace w"
    by blast
  from tm assms(3) have "\<forall>t \<in> set (timers (snd (simulate S opts trs w))). T < due t"
    by simp
  then show "advance S opts T (snd (simulate S opts trs w)) = snd (simulate S opts trs w)"
    by (rule advance_nothing_due)
  from tr show "trace (snd (simulate S opts trs w)) = trace w" .
  from tm show "length (timers (snd (simulate S opts trs w))) = 1" by simp
qed

lemma burst_outcome:
  assumes "idle w" and "coalesced trs"
    and "at (last trs) + DEBOUNCE_MS \<le> T"
  obtains r f es where
    "rebuild S opts (trigger_reason (last trs)) (trigger_modules (last trs)) w
       = (r, host_effect w f es)"
    and "length (filter (\<lambda>e. e = ReadAndGroup) es) = 1"
    and "timers (advance S opts T (snd (simulate S opts trs w))) = []"
    and "idle (advance S opts T (snd (simulate S opts trs w)))"
    and "trace (advance S opts T (snd (simulate S opts trs w)))
           = trace w @ es @ (case r of Inl e \<Rightarrow> [UnhandledRejection e] | Inr v \<Rightarrow> [])"
    and "promises (advance S opts T (snd (simulate S opts trs w)))
           = promises w @ replicate (length trs - 1) Pending @
             [case r of Inl e \<Rightarrow> Pending | Inr v \<Rightarrow> Fulfilled v]"
proof -
  let ?w' = "snd (simulate S opts trs w)"
  note win = coalesced_window [OF assms(1,2)]
  from simulate_window [OF win(1) order_refl win(2), of S opts] win(3)
  obtain h where tm: "timers ?w' =
                  [\<lparr>handle = h, due = at (last trs) + DEBOUNCE_MS,
                    timer_reason = trigger_reason (last trs),
                    timer_modules = trigger_modules (last trs),
                    timer_promise = length (promises w) + length trs - 1\<rparr>]"
    and tr: "trace ?w' = trace w"
    and pr: "promises ?w' = promises w @ replicate (length trs) Pending"
    and si: "same_inputs w ?w'"
    by blast
  define t where "t = \<lparr>handle = h, due = at (last trs) + DEBOUNCE_MS,
                    timer_reason = trigger_reason (last trs),
                    timer_modules = trigger_modules (last trs),
                    timer_promise = length (promises w) + length trs - 1\<rparr>"
  have t_fields: "timer_reason t = trigger_reason (last trs)"
    "timer_modules t = trigger_modules (last trs)"
    "timer_promise t = length (promises w) + length trs - 1" "due t = at (last trs) + DEBOUNCE_MS"
    by (simp_all add: t_def)
  from tm have tm': "timers ?w' = [t]" by (simp add: t_def)
  from assms(3) have "due t \<le> T" by (simp add: t_fields)
  with tm' have adv: "advance S opts T ?w' = timer_callback S opts t (?w'\<lparr>timers := []\<rparr>)"
    by (rule advance_one_due)
  from si have si': "same_inputs w (?w'\<lparr>timers := []\<rparr>)"
    by (simp add: same_inputs_def same_wiring_def)
  obtain r f es where
    rb: "rebuild S opts (timer_reason t) (timer_modules t) w = (r, host_effect w f es)"
    and one: "length (filter (\<lambda>e. e = ReadAndGroup) es) = 1"
    and cb: "timer_callback S opts t (?w'\<lparr>timers := []\<rparr>) =
           (case r of
              Inr v \<Rightarrow> (?w'\<lparr>timers := []\<rparr>)
                         \<lparr>lastRebuildCall := 0, fs := f,
                          trace := trace (?w'\<lparr>timers := []\<rparr>) @ es,
                          promises := (promises (?w'\<lparr>timers := []\<rparr>))
                                        [timer_promise t := Fulfilled v]\<rparr>
            | Inl e \<Rightarrow> (?w'\<lparr>timers := []\<rparr>)
                         \<lparr>lastRebuildCall := 0, fs := f,
                          trace := trace (?w'\<lparr>timers := []\<rparr>) @ es @ [UnhandledRejection e]\<rparr>)"
    by (rule timer_callback_outcome [OF si', of S opts t]) blast
  from win(3) obtain k where k: "length trs = Suc k"
    by (cases trs) simp_all
  have upd: "(promises w @ replicate (length trs) Pending)
               [length (promises w) + length trs - 1 := p]
             = promises w @ replicate (length trs - 1) Pending @ [p]" for p :: "'a promise"
  proof -
    have "promises w @ replicate (Suc k) Pending
        = (promises w @ replicate k Pending) @ Pending # []"
      by (simp add: replicate_append_same)
    moreover have "length (promises w) + Suc k - 1 = length (promises w @ replicate k Pending)"
      by simp
    ultimately have "(promises w @ replicate (Suc k) Pending)[length (promises w) + Suc k - 1 := p]
        = (promises w @ replicate k Pending) @ p # []"
      by (simp only: list_update_length)
    then show ?thesis by (simp add: k)
  qed
  show ?thesis
  proof (rule that [where r = r and f = f and es = es])
    from rb show "rebuild S opts (trigger_reason (last trs)) (trigger_modules (last trs)) w
       = (r, host_effect w f es)"
      by (simp only: t_fields)
    show "length (filter (\<lambda>e. e = ReadAndGroup) es) = 1" by (rule one)
    show "timers (advance S opts T ?w') = []"
      by (simp add: adv cb split: sum.splits)
    show "idle (advance S opts T ?w')"
      by (simp add: idle_def adv cb split: sum.splits)
    show "trace (advance S opts T ?w')
           = trace w @ es @ (case r of Inl e \<Rightarrow> [UnhandledRejection e] | Inr v \<Rightarrow> [])"
      by (simp add: adv cb tr split: sum.splits)
    show "promises (advance S opts T ?w')
           = promises w @ replicate (length trs - 1) Pending @
             [case r of Inl e \<Rightarrow> Pending | Inr v \<Rightarrow> Fulfilled v]"
    proof (cases r)
      case (Inl e)
      then show ?thesis
        by (simp add: adv cb pr k replicate_append_same)
    next
      case (Inr v)
      have "promises (advance S opts T ?w')
          = (promises ?w')[timer_promise t := Fulfilled v]"
        by (simp add: adv cb Inr)
      also have "\<dots> = promises w @ replicate (length trs - 1) Pending @ [Fulfilled v]"
        by (simp only: pr t_fields upd)
      finally show ?thesis by (simp add: Inr)
    qed
  qed
qed

text \<open>
  In every world the manager can reach, the armed timers are tracked: the constructor and the
  setters arm none, \<^verbatim>\<open>debouncedRebuild\<close> clears before it arms, and a timer callback arms
  none.
\<close>

lemma timers_tracked_initial:
  "timers_tracked (new_RebuildManager s)"
  "timers_tracked w \<Longrightarrow> timers_tracked (setServer server vid w)"
  "timers_tracked w \<Longrightarrow> timers_tracked (setEnv env w)"
  by (simp_all add: timers_tracked_def new_RebuildManager_def setServer_def setEnv_def)

lemma timers_tracked_debouncedRebuild:
  assumes "timers_tracked w"
  shows "timers_tracked (snd (debouncedRebuild S opts now reason ms w))"
proof (cases "now - (if lastRebuildCall w = 0 then now else lastRebuildCall w) < MAX_WAIT_MS")
  case True
  from debouncedRebuild_arm [OF assms True, of S opts reason ms] show ?thesis
    by (simp add: timers_tracked_def)
next
  case False
  then have nz: "lastRebuildCall w \<noteq> 0" and late: "MAX_WAIT_MS \<le> now - lastRebuildCall w"
    by (auto simp: MAX_WAIT_MS_def split: if_splits)
  let ?w0 = "w\<lparr>timers := [], lastRebuildCall := 0\<rparr>"
  obtain r f es where "rebuild S opts reason ms ?w0 = (r, host_effect ?w0 f es)"
    by (rule rebuild_shape [of S opts reason ms ?w0]) blast
  with debouncedRebuild_immediate [OF assms nz late, of S opts reason ms] show ?thesis
    by (simp add: timers_tracked_def)
qed

lemma timer_callback_keeps_timers:
  "timers (timer_callback S opts t w) = timers w \<and>
   rebuildTimer (timer_callback S opts t w) = rebuildTimer w"
proof -
  have "same_inputs w w" by (simp add: same_inputs_def same_wiring_def)
  then obtain r f es where "timer_callback S opts t w =
           (case r of
              Inr v \<Rightarrow> w\<lparr>lastRebuildCall := 0, fs := f, trace := trace w @ es,
                         promises := (promises w)[timer_promise t := Fulfilled v]\<rparr>
            | Inl e \<Rightarrow> w\<lparr>lastRebuildCall := 0, fs := f,
                         trace := trace w @ es @ [UnhandledRejection e]\<rparr>)"
    by (rule timer_callback_outcome [of w w S opts t]) blast
  then show ?thesis by (simp split: sum.splits)
qed

lemma fold_timer_callback_keeps_timers:
  "timers (fold (timer_callback S opts) ts w) = timers w \<and>
   rebuildTimer (fold (timer_callback S opts) ts w) = rebuildTimer w"
  by (induction ts arbitrary: w) (simp_all add: timer_callback_keeps_timers)

lemma timers_tracked_advance:
  assumes "timers_tracked w"
  shows "timers_tracked (advance S opts T w)"
  using assms
  by (simp add: advance_def timers_tracked_def fold_timer_callback_keeps_timers list_all_iff)

lemma timers_tracked_rebuild:
  assumes "timers_tracked w"
  shows "timers_tracked (snd (rebuild S opts reason ms w))"
proof -
  obtain r f es where "rebuild S opts reason ms w = (r, host_effect w f es)"
    by (rule rebuild_shape [of S opts reason ms w]) blast
  with assms show ?thesis by (simp add: timers_tracked_def)
qed

lemma reachable_timers_tracked:
  assumes "reachable S opts w"
  shows "timers_tracked w"
  using assms
  by (induction rule: reachable.induct)
     (simp_all add: timers_tracked_initial timers_tracked_debouncedRebuild
        timers_tracked_rebuild timers_tracked_advance)

section \<open>The claims about debouncing\<close>

lemma demo_idle:
  "idle demo_wired" "promises demo_wired = []" "trace demo_wired = []"
  "pipeline_runs demo_wired = 0" "fs demo_wired = 0"
  by (simp_all add: idle_def pipeline_runs_def demo_wired_def new_RebuildManager_def
      setServer_def setEnv_def)

lemma demo_rebuild_wired:
  assumes "same_inputs demo_wired w"
  shows "rebuild demo_stringify demo_options ''change'' [demo_module_virtual] w =
     (Inr \<lparr>modules = [demo_module_virtual], grouped = demo_canonical,
            jsonText = demo_stringify demo_canonical\<rparr>,
      host_effect w 1
        [ReadAndGroup, LogInfo (ReadGroupMsg demo_stats),
         GenerateFiles demo_canonical ''/app'', LogInfo (GeneratedMsg demo_generated),
         InvalidateAll, HotSend FullReload,
         LogInfo (ReloadMsg demo_virtual_id [demo_module_virtual]),
         RebuildComplete \<lparr>cache_modules = Some [demo_module_virtual],
                          cache_grouped = demo_canonical,
                          cache_jsonText = demo_stringify demo_canonical\<rparr>,
         LogInfo (RebuildCompleteMsg ''change'' [''en''])])"
proof -
  have t: "root demo_options = ''/app''" "Object_keys demo_canonical = [''en'']"
    "info_events demo_options msg = [LogInfo msg]"
    "callback_events demo_options cache = [RebuildComplete cache]" for msg cache
    by (simp_all add: demo_defs call_defs property_order_def array_index_def)
  have "invalidateModule demo_options [demo_module_virtual] demo_wired
      = (Inr (Some [demo_module_virtual]),
         [InvalidateAll, HotSend FullReload,
          LogInfo (ReloadMsg demo_virtual_id [demo_module_virtual])])"
    by (simp add: invalidateModule_def demo_defs falsy_string_def truthy_array_def Let_def
        call_defs)
  moreover from assms have "same_wiring demo_wired w" by (simp add: same_inputs_def)
  ultimately have i: "invalidateModule demo_options [demo_module_virtual] w
      = (Inr (Some [demo_module_virtual]),
         [InvalidateAll, HotSend FullReload,
          LogInfo (ReloadMsg demo_virtual_id [demo_module_virtual])])"
    by (simp only: invalidateModule_same_wiring)
  from assms have "fs w = 0" by (simp add: same_inputs_def demo_idle)
  then have fm: "fileManager demo_options (fs w) = (Inr (demo_grouped, demo_stats), 1)"
    by (simp add: demo_options_def demo_readAndGroup_def)
  show ?thesis
    by (simp add: rebuild_success [OF fm demo_collaborators(2) demo_parts_return(1,2) i]
        demo_canonicalize t del: canonicalize.simps)
qed

lemma demo_rebuild_failing:
  assumes "same_inputs demo_wired w"
  shows "rebuild demo_stringify demo_options_failing ''change'' [demo_module_virtual] w =
     (Inl (JsError ''ENOENT''), host_effect w 1 [ReadAndGroup])"
proof -
  from assms have "fs w = 0" by (simp add: same_inputs_def demo_idle)
  then have "fileManager demo_options_failing (fs w) = (Inl (JsError ''ENOENT''), 1)"
    by (simp add: demo_defs)
  then show ?thesis by (rule rebuild_read_error)
qed

lemma demo_pending_eq:
  "demo_pending =
     demo_wired\<lparr>lastRebuildCall := 1000, promises := [Pending],
                timers := [\<lparr>handle = 1, due = 1300, timer_reason = ''change'',
                            timer_modules = [demo_module_virtual], timer_promise = 0\<rparr>],
                next_handle := 2, rebuildTimer := Some 1\<rparr>"
  "snd (debouncedRebuild demo_stringify demo_options_failing 1000 ''change''
          [demo_module_virtual] demo_wired) = demo_pending"
proof -
  have t: "timers_tracked demo_wired" "lastRebuildCall demo_wired = 0"
    "promises demo_wired = []" "next_handle demo_wired = 1"
    by (simp_all add: demo_wired_def timers_tracked_def new_RebuildManager_def
        setServer_def setEnv_def)
  then have m: "1000 - (if lastRebuildCall demo_wired = 0 then 1000 else lastRebuildCall demo_wired)
      < MAX_WAIT_MS"
    by (simp add: MAX_WAIT_MS_def)
  from debouncedRebuild_arm [OF t(1) m, of demo_stringify demo_options "''change''"
         "[demo_module_virtual]"]
  show 1: "demo_pending =
     demo_wired\<lparr>lastRebuildCall := 1000, promises := [Pending],
                timers := [\<lparr>handle = 1, due = 1300, timer_reason = ''change'',
                            timer_modules = [demo_module_virtual], timer_promise = 0\<rparr>],
                next_handle := 2, rebuildTimer := Some 1\<rparr>"
    by (simp add: demo_pending_def t DEBOUNCE_MS_def)
  from debouncedRebuild_arm [OF t(1) m, of demo_stringify demo_options_failing "''change''"
         "[demo_module_virtual]"]
  show "snd (debouncedRebuild demo_stringify demo_options_failing 1000 ''change''
          [demo_module_virtual] demo_wired) = demo_pending"
    by (simp add: 1 t DEBOUNCE_MS_def)
qed

lemma demo_pending_reachable:
  "reachable demo_stringify demo_options demo_pending"
  "reachable demo_stringify demo_options_failing demo_pending"
proof -
  show "reachable demo_stringify demo_options demo_pending"
    unfolding demo_pending_def demo_wired_def by (intro reachable.intros)
  have "reachable demo_stringify demo_options_failing
          (snd (debouncedRebuild demo_stringify demo_options_failing 1000 ''change''
                  [demo_module_virtual] demo_wired))"
    unfolding demo_wired_def by (intro reachable.intros)
  then show "reachable demo_stringify demo_options_failing demo_pending"
    by (simp only: demo_pending_eq(2))
qed

lemma demo_pending_fields:
  "lastRebuildCall demo_pending = 1000" "promises demo_pending = [Pending]"
  "timers demo_pending \<noteq> []" "pipeline_runs demo_pending = 0"
  "same_inputs demo_wired (demo_pending\<lparr>timers := [], lastRebuildCall := 0\<rparr>)"
  by (simp_all add: demo_pending_eq(1) same_inputs_def same_wiring_def pipeline_runs_def
      demo_idle)

text \<open>
  C3. When \<^verbatim>\<open>debouncedRebuild\<close> is called, in any state the manager can reach, while a
  debounce window is open and the time since its start has reached the max-wait threshold,
  the armed timer is cancelled and the window start reset before \<^verbatim>\<open>rebuild\<close> runs,
  \<^verbatim>\<open>rebuild\<close> runs within the call, once, and no timer is armed afterwards. The caller
  receives a new promise, already settled: fulfilled with the value that \<^verbatim>\<open>rebuild\<close>
  returned, or rejected with the error that \<^verbatim>\<open>rebuild\<close> threw.
\<close>

theorem debouncedRebuild_max_wait:
  assumes "reachable S opts w"
    and "lastRebuildCall w \<noteq> 0" and "MAX_WAIT_MS \<le> now - lastRebuildCall w"
  shows "fst (debouncedRebuild S opts now reason ms w) = length (promises w) \<and>
         timers (snd (debouncedRebuild S opts now reason ms w)) = [] \<and>
         lastRebuildCall (snd (debouncedRebuild S opts now reason ms w)) = 0 \<and>
         fs (snd (debouncedRebuild S opts now reason ms w))
           = fs (snd (rebuild S opts reason ms (w\<lparr>timers := [], lastRebuildCall := 0\<rparr>))) \<and>
         trace (snd (debouncedRebuild S opts now reason ms w))
           = trace (snd (rebuild S opts reason ms (w\<lparr>timers := [], lastRebuildCall := 0\<rparr>))) \<and>
         pipeline_runs (snd (debouncedRebuild S opts now reason ms w)) = Suc (pipeline_runs w) \<and>
         (\<forall>v. fst (rebuild S opts reason ms (w\<lparr>timers := [], lastRebuildCall := 0\<rparr>)) = Inr v \<longrightarrow>
              promises (snd (debouncedRebuild S opts now reason ms w))
                = promises w @ [Fulfilled v]) \<and>
         (\<forall>e. fst (rebuild S opts reason ms (w\<lparr>timers := [], lastRebuildCall := 0\<rparr>)) = Inl e \<longrightarrow>
              promises (snd (debouncedRebuild S opts now reason ms w))
                = promises w @ [Rejected e])"
proof -
  let ?w0 = "w\<lparr>timers := [], lastRebuildCall := 0\<rparr>"
  from assms(1) have "timers_tracked w" by (rule reachable_timers_tracked)
  note eq = debouncedRebuild_immediate [OF this assms(2,3), of S opts reason ms]
  obtain r f es where rb: "rebuild S opts reason ms ?w0 = (r, host_effect ?w0 f es)"
    and one: "length (filter (\<lambda>e. e = ReadAndGroup) es) = 1"
    by (rule rebuild_shape [of S opts reason ms ?w0]) blast
  have "fst (debouncedRebuild S opts now reason ms w) = length (promises w)"
    "timers (snd (debouncedRebuild S opts now reason ms w)) = []"
    "lastRebuildCall (snd (debouncedRebuild S opts now reason ms w)) = 0"
    "fs (snd (debouncedRebuild S opts now reason ms w)) = fs (snd (rebuild S opts reason ms ?w0))"
    "trace (snd (debouncedRebuild S opts now reason ms w))
       = trace (snd (rebuild S opts reason ms ?w0))"
    "pipeline_runs (snd (debouncedRebuild S opts now reason ms w)) = Suc (pipeline_runs w)"
    "promises (snd (debouncedRebuild S opts now reason ms w))
       = promises w @ [settled (fst (rebuild S opts reason ms ?w0))]"
    unfolding eq by (simp_all add: rb one pipeline_runs_def)
  then show ?thesis
    by (simp add: settled_def)
qed

theorem debouncedRebuild_max_wait_witness:
  "reachable demo_stringify demo_options demo_pending \<and> lastRebuildCall demo_pending \<noteq> 0 \<and>
   MAX_WAIT_MS \<le> 3000 - lastRebuildCall demo_pending \<and>
   timers demo_pending \<noteq> [] \<and> promises demo_pending = [Pending] \<and>
   fst (rebuild demo_stringify demo_options ''change'' [demo_module_virtual]
          (demo_pending\<lparr>timers := [], lastRebuildCall := 0\<rparr>))
     = Inr \<lparr>modules = [demo_module_virtual], grouped = demo_canonical,
            jsonText = demo_stringify demo_canonical\<rparr> \<and>
   fst (debouncedRebuild demo_stringify demo_options 3000 ''change''
          [demo_module_virtual] demo_pending) = 1 \<and>
   promises (snd (debouncedRebuild demo_stringify demo_options 3000 ''change''
                    [demo_module_virtual] demo_pending))
     = [Pending,
        Fulfilled \<lparr>modules = [demo_module_virtual], grouped = demo_canonical,
                   jsonText = demo_stringify demo_canonical\<rparr>] \<and>
   timers (snd (debouncedRebuild demo_stringify demo_options 3000 ''change''
                  [demo_module_virtual] demo_pending)) = [] \<and>
   lastRebuildCall (snd (debouncedRebuild demo_stringify demo_options 3000 ''change''
                           [demo_module_virtual] demo_pending)) = 0 \<and>
   pipeline_runs (snd (debouncedRebuild demo_stringify demo_options 3000 ''change''
                         [demo_module_virtual] demo_pending)) = 1 \<and>
   reachable demo_stringify demo_options_failing demo_pending \<and>
   fst (rebuild demo_stringify demo_options_failing ''change'' [demo_module_virtual]
          (demo_pending\<lparr>timers := [], lastRebuildCall := 0\<rparr>)) = Inl (JsError ''ENOENT'') \<and>
   promises (snd (debouncedRebuild demo_stringify demo_options_failing 3000 ''change''
                    [demo_module_virtual] demo_pending))
     = [Pending, Rejected (JsError ''ENOENT'')]"
proof -
  have h: "lastRebuildCall demo_pending \<noteq> 0"
    "MAX_WAIT_MS \<le> 3000 - lastRebuildCall demo_pending"
    by (simp_all add: demo_pending_fields MAX_WAIT_MS_def)
  note p = demo_pending_fields(2,3)
  have r: "fst (rebuild demo_stringify demo_options ''change'' [demo_module_virtual]
                  (demo_pending\<lparr>timers := [], lastRebuildCall := 0\<rparr>))
     = Inr \<lparr>modules = [demo_module_virtual], grouped = demo_canonical,
            jsonText = demo_stringify demo_canonical\<rparr>"
    by (simp add: demo_rebuild_wired [OF demo_pending_fields(5)])
  have r': "fst (rebuild demo_stringify demo_options_failing ''change'' [demo_module_virtual]
          (demo_pending\<lparr>timers := [], lastRebuildCall := 0\<rparr>)) = Inl (JsError ''ENOENT'')"
    by (simp add: demo_rebuild_failing [OF demo_pending_fields(5)])
  note a = debouncedRebuild_max_wait [OF demo_pending_reachable(1) h, of "''change''"
         "[demo_module_virtual]", unfolded demo_pending_fields(1,2,4)]
  note b = debouncedRebuild_max_wait [OF demo_pending_reachable(2) h, of "''change''"
         "[demo_module_virtual]", unfolded demo_pending_fields(1,2,4)]
  have 1: "fst (debouncedRebuild demo_stringify demo_options 3000 ''change''
          [demo_module_virtual] demo_pending) = 1"
    using a [THEN conjunct1] by simp
  have 2: "timers (snd (debouncedRebuild demo_stringify demo_options 3000 ''change''
                  [demo_module_virtual] demo_pending)) = []"
    by (rule a [THEN conjunct2, THEN conjunct1])
  have 3: "lastRebuildCall (snd (debouncedRebuild demo_stringify demo_options 3000 ''change''
                           [demo_module_virtual] demo_pending)) = 0"
    by (rule a [THEN conjunct2, THEN conjunct2, THEN conjunct1])
  have 4: "pipeline_runs (snd (debouncedRebuild demo_stringify demo_options 3000 ''change''
                         [demo_module_virtual] demo_pending)) = 1"
    using a [THEN conjunct2, THEN conjunct2, THEN conjunct2, THEN conjunct2, THEN conjunct2,
             THEN conjunct1] by simp
  have 5: "promises (snd (debouncedRebuild demo_stringify demo_options 3000 ''change''
                    [demo_module_virtual] demo_pending))
     = [Pending,
        Fulfilled \<lparr>modules = [demo_module_virtual], grouped = demo_canonical,
                   jsonText = demo_stringify demo_canonical\<rparr>]"
    using a [THEN conjunct2, THEN conjunct2, THEN conjunct2, THEN conjunct2, THEN conjunct2,
             THEN conjunct2, THEN conjunct1, rule_format, OF r] by simp
  have 6: "promises (snd (debouncedRebuild demo_stringify demo_options_failing 3000 ''change''
                    [demo_module_virtual] demo_pending))
     = [Pending, Rejected (JsError ''ENOENT'')]"
    using b [THEN conjunct2, THEN conjunct2, THEN conjunct2, THEN conjunct2, THEN conjunct2,
             THEN conjunct2, THEN conjunct2, rule_format, OF r'] by simp
  show ?thesis
    by (intro conjI) (rule demo_pending_reachable h p r r' 1 2 3 4 5 6)+
qed

text \<open>
  C4. A burst of triggers, handled from an idle manager, in which the last trigger comes
  less than the debounce window after the first: while the triggers arrive and until the
  debounce delay after the last one has elapsed, the pipeline does not run and exactly one
  timer is armed; from then on the pipeline has run exactly once, and no timer is left that
  could run it again.
\<close>

theorem debounce_coalescing:
  assumes "idle w" and "trs \<noteq> []" and "sorted (map at trs)"
    and "at (last trs) - at (hd trs) < DEBOUNCE_MS"
  shows "length (timers (snd (simulate S opts trs w))) = 1 \<and>
         pipeline_runs (snd (simulate S opts trs w)) = pipeline_runs w \<and>
         (T < at (last trs) + DEBOUNCE_MS \<longrightarrow>
            pipeline_runs (advance S opts T (snd (simulate S opts trs w))) = pipeline_runs w) \<and>
         (at (last trs) + DEBOUNCE_MS \<le> T \<longrightarrow>
            pipeline_runs (advance S opts T (snd (simulate S opts trs w)))
              = Suc (pipeline_runs w) \<and>
            timers (advance S opts T (snd (simulate S opts trs w))) = [])"
proof (intro conjI impI)
  have "at (last trs) < at (last trs) + DEBOUNCE_MS"
    by (simp add: DEBOUNCE_MS_def)
  note early = burst_before_due [OF assms(1) burst_coalesced [OF assms(2-4)] this, of S opts]
  from early(3) show "length (timers (snd (simulate S opts trs w))) = 1" .
  from early(2) show "pipeline_runs (snd (simulate S opts trs w)) = pipeline_runs w"
    by (simp add: pipeline_runs_def)
next
  assume "T < at (last trs) + DEBOUNCE_MS"
  from burst_before_due [OF assms(1) burst_coalesced [OF assms(2-4)] this, of S opts]
  show "pipeline_runs (advance S opts T (snd (simulate S opts trs w))) = pipeline_runs w"
    by (simp add: pipeline_runs_def)
next
  assume late: "at (last trs) + DEBOUNCE_MS \<le> T"
  obtain r f es where
    "rebuild S opts (trigger_reason (last trs)) (trigger_modules (last trs)) w
       = (r, host_effect w f es)"
    and one: "length (filter (\<lambda>e. e = ReadAndGroup) es) = 1"
    and tm: "timers (advance S opts T (snd (simulate S opts trs w))) = []"
    and tr: "trace (advance S opts T (snd (simulate S opts trs w)))
           = trace w @ es @ (case r of Inl e \<Rightarrow> [UnhandledRejection e] | Inr v \<Rightarrow> [])"
    by (rule burst_outcome [OF assms(1) burst_coalesced [OF assms(2-4)] late, of S opts]) blast
  from one tr show "pipeline_runs (advance S opts T (snd (simulate S opts trs w)))
              = Suc (pipeline_runs w)"
    by (simp add: pipeline_runs_def split: sum.splits)
  from tm show "timers (advance S opts T (snd (simulate S opts trs w))) = []" .
qed

theorem debounce_coalescing_witness:
  "idle demo_wired \<and> [demo_trigger 1000, demo_trigger 1100, demo_trigger 1250] \<noteq> [] \<and>
   sorted (map at [demo_trigger 1000, demo_trigger 1100, demo_trigger 1250]) \<and>
   at (last [demo_trigger 1000, demo_trigger 1100, demo_trigger 1250])
     - at (hd [demo_trigger 1000, demo_trigger 1100, demo_trigger 1250]) < DEBOUNCE_MS \<and>
   pipeline_runs (advance demo_stringify demo_options 1549
      (snd (simulate demo_stringify demo_options
              [demo_trigger 1000, demo_trigger 1100, demo_trigger 1250] demo_wired))) = 0 \<and>
   pipeline_runs (advance demo_stringify demo_options 1550
      (snd (simulate demo_stringify demo_options
              [demo_trigger 1000, demo_trigger 1100, demo_trigger 1250] demo_wired))) = 1"
proof -
  let ?trs = "[demo_trigger 1000, demo_trigger 1100, demo_trigger 1250]"
  have h: "idle demo_wired" "?trs \<noteq> []" "sorted (map at ?trs)"
    "at (last ?trs) - at (hd ?trs) < DEBOUNCE_MS"
    by (simp_all add: idle_def demo_wired_def new_RebuildManager_def setServer_def setEnv_def
        demo_trigger_def DEBOUNCE_MS_def)
  have t: "1549 < at (last ?trs) + DEBOUNCE_MS" "at (last ?trs) + DEBOUNCE_MS \<le> 1550"
    by (simp_all add: demo_trigger_def DEBOUNCE_MS_def)
  have z: "pipeline_runs demo_wired = 0"
    by (simp add: pipeline_runs_def demo_wired_def new_RebuildManager_def setServer_def
        setEnv_def)
  from debounce_coalescing [OF h, of demo_stringify demo_options 1549] t(1) z
  have a: "pipeline_runs (advance demo_stringify demo_options 1549
      (snd (simulate demo_stringify demo_options ?trs demo_wired))) = 0"
    by simp
  from debounce_coalescing [OF h, of demo_stringify demo_options 1550] t(2) z
  have b: "pipeline_runs (advance demo_stringify demo_options 1550
      (snd (simulate demo_stringify demo_options ?trs demo_wired))) = 1"
    by simp
  from h a b show ?thesis by blast
qed

lemma demo_burst:
  "coalesced [demo_trigger 1000, demo_trigger 1100]"
  "at (last [demo_trigger 1000, demo_trigger 1100]) + DEBOUNCE_MS \<le> 1400"
  "trigger_reason (last [demo_trigger 1000, demo_trigger 1100]) = ''change''"
  "trigger_modules (last [demo_trigger 1000, demo_trigger 1100]) = [demo_module_virtual]"
  by (simp_all add: coalesced_def demo_trigger_def DEBOUNCE_MS_def MAX_WAIT_MS_def)

lemma demo_same_inputs: "same_inputs demo_wired demo_wired"
  by (simp add: same_inputs_def same_wiring_def)

lemma simulate_append:
  "simulate S opts (trs @ [tr]) w =
     (fst (simulate S opts trs w) @
        [fst (debouncedRebuild S opts (at tr) (trigger_reason tr) (trigger_modules tr)
                (advance S opts (at tr) (snd (simulate S opts trs w))))],
      snd (debouncedRebuild S opts (at tr) (trigger_reason tr) (trigger_modules tr)
             (advance S opts (at tr) (snd (simulate S opts trs w)))))"
  by (induction trs arbitrary: w) (simp_all add: split_beta Let_def)

text \<open>
  A call that closes a coalesced window by the max-wait threshold: it comes before the
  armed timer is due, and the threshold after the first call or later. The pipeline runs
  within that call and settles the promise of that call alone.
\<close>

lemma window_closed_by_max_wait:
  assumes "idle w" and "coalesced trs" and "0 < at (hd trs)"
    and "at tr < at (last trs) + DEBOUNCE_MS" and "MAX_WAIT_MS \<le> at tr - at (hd trs)"
  shows "promises (snd (simulate S opts (trs @ [tr]) w))
           = promises w @ replicate (length trs) Pending @
             [settled (fst (rebuild S opts (trigger_reason tr) (trigger_modules tr) w))]"
    and "timers (snd (simulate S opts (trs @ [tr]) w)) = []"
    and "pipeline_runs (snd (simulate S opts (trs @ [tr]) w)) = Suc (pipeline_runs w)"
proof -
  let ?w' = "snd (simulate S opts trs w)"
  let ?w0 = "?w'\<lparr>timers := [], lastRebuildCall := 0\<rparr>"
  note win = coalesced_window [OF assms(1,2)]
  from assms(1) have idle: "lastRebuildCall w = 0" by (simp add: idle_def)
  from simulate_window [OF win(1) order_refl win(2), of S opts] win(3) assms(3) idle
  obtain h where tm: "timers ?w' =
                  [\<lparr>handle = h, due = at (last trs) + DEBOUNCE_MS,
                    timer_reason = trigger_reason (last trs),
                    timer_modules = trigger_modules (last trs),
                    timer_promise = length (promises w) + length trs - 1\<rparr>]"
    and tr: "trace ?w' = trace w"
    and pr: "promises ?w' = promises w @ replicate (length trs) Pending"
    and si: "same_inputs w ?w'"
    and tt: "timers_tracked ?w'"
    and lr: "lastRebuildCall ?w' = at (hd trs)"
    by auto
  from tm assms(4) have "\<forall>t \<in> set (timers ?w'). at tr < due t" by simp
  then have adv: "advance S opts (at tr) ?w' = ?w'" by (rule advance_nothing_due)
  from lr assms(3,5) have nz: "lastRebuildCall ?w' \<noteq> 0"
    and late: "MAX_WAIT_MS \<le> at tr - lastRebuildCall ?w'" by simp_all
  note eq = debouncedRebuild_immediate [OF tt nz late, of S opts "trigger_reason tr"
      "trigger_modules tr"]
  obtain r f es where
    rb: "rebuild S opts (trigger_reason tr) (trigger_modules tr) w = (r, host_effect w f es)"
    and same: "\<And>w'. same_inputs w w' \<Longrightarrow>
           rebuild S opts (trigger_reason tr) (trigger_modules tr) w' = (r, host_effect w' f es)"
    and one: "length (filter (\<lambda>e. e = ReadAndGroup) es) = 1"
    by (rule rebuild_shape [of S opts "trigger_reason tr" "trigger_modules tr" w]) blast
  from si have "same_inputs w ?w0" by (simp add: same_inputs_def same_wiring_def)
  note r0 = same [OF this]
  show "promises (snd (simulate S opts (trs @ [tr]) w))
           = promises w @ replicate (length trs) Pending @
             [settled (fst (rebuild S opts (trigger_reason tr) (trigger_modules tr) w))]"
    by (simp add: simulate_append adv eq r0 rb pr)
  show "timers (snd (simulate S opts (trs @ [tr]) w)) = []"
    by (simp add: simulate_append adv eq r0)
  show "pipeline_runs (snd (simulate S opts (trs @ [tr]) w)) = Suc (pipeline_runs w)"
    by (simp add: simulate_append adv eq r0 pipeline_runs_def tr one)
qed

text \<open>
  C2, as stated, fails. Two callers within one window: the second call cancels the timer of
  the first, whose callback alone could have resolved the first promise. After the single
  rebuild has completed, the second promise is fulfilled and the first is still pending;
  no timer is left that could settle it.
\<close>

theorem debounce_fan_out_counterexample:
  "fst (simulate demo_stringify demo_options [demo_trigger 1000, demo_trigger 1100] demo_wired)
     = [0, 1] \<and>
   promises (advance demo_stringify demo_options 1400
      (snd (simulate demo_stringify demo_options [demo_trigger 1000, demo_trigger 1100]
              demo_wired)))
     = [Pending,
        Fulfilled \<lparr>modules = [demo_module_virtual], grouped = demo_canonical,
                   jsonText = demo_stringify demo_canonical\<rparr>] \<and>
   timers (advance demo_stringify demo_options 1400
      (snd (simulate demo_stringify demo_options [demo_trigger 1000, demo_trigger 1100]
              demo_wired))) = []"
proof -
  let ?trs = "[demo_trigger 1000, demo_trigger 1100]"
  note win = coalesced_window [OF demo_idle(1) demo_burst(1)]
  from simulate_window [OF win(1) order_refl win(2), of demo_stringify demo_options]
  have ps: "fst (simulate demo_stringify demo_options ?trs demo_wired) = [0, 1]"
    by (simp add: demo_idle upt_rec)
  obtain r f es where
    rb: "rebuild demo_stringify demo_options (trigger_reason (last ?trs))
           (trigger_modules (last ?trs)) demo_wired
         = (r, host_effect demo_wired f es)"
    and tm: "timers (advance demo_stringify demo_options 1400
               (snd (simulate demo_stringify demo_options ?trs demo_wired))) = []"
    and pr: "promises (advance demo_stringify demo_options 1400
               (snd (simulate demo_stringify demo_options ?trs demo_wired)))
           = promises demo_wired @ replicate (length ?trs - 1) Pending @
             [case r of Inl e \<Rightarrow> Pending | Inr v \<Rightarrow> Fulfilled v]"
    by (rule burst_outcome [OF demo_idle(1) demo_burst(1,2), of demo_stringify demo_options])
       blast
  from rb have "r = Inr \<lparr>modules = [demo_module_virtual], grouped = demo_canonical,
                         jsonText = demo_stringify demo_canonical\<rparr>"
    by (simp only: demo_burst(3,4) demo_rebuild_wired [OF demo_same_inputs] prod.inject)
  with pr have "promises (advance demo_stringify demo_options 1400
               (snd (simulate demo_stringify demo_options ?trs demo_wired)))
     = [Pending,
        Fulfilled \<lparr>modules = [demo_module_virtual], grouped = demo_canonical,
                   jsonText = demo_stringify demo_canonical\<rparr>]"
    by (simp add: demo_idle)
  with ps tm show ?thesis by blast
qed

text \<open>
  C2, amended. A coalesced window is a sequence of \<^verbatim>\<open>debouncedRebuild\<close> calls, the first made
  while the manager is idle, in which each call comes less than the debounce delay after the
  one before it and less than the max-wait threshold after the first; the window slides
  with every call. The callers of such a window receive distinct promises. Once the
  debounce delay after the last call has elapsed and the single rebuild has returned, the
  promise of the last call is fulfilled with the result of that rebuild, the promises of all
  earlier calls are still pending, and no timer is left that could settle them. When the
  window is closed instead by a further call that comes before the armed timer is due and
  the max-wait threshold after the first call or later, the rebuild runs within that call
  and, when it returns, fulfils the promise of that call; the promises of all calls of the
  window are still pending, and no timer is left.
\<close>

theorem debounce_last_caller_resolves:
  assumes "idle w" and "coalesced trs"
  shows "fst (simulate S opts trs w)
           = [length (promises w) ..< length (promises w) + length trs] \<and>
         (\<forall>T v. at (last trs) + DEBOUNCE_MS \<le> T \<and>
                fst (rebuild S opts (trigger_reason (last trs)) (trigger_modules (last trs)) w)
                  = Inr v \<longrightarrow>
            promises (advance S opts T (snd (simulate S opts trs w)))
              = promises w @ replicate (length trs - 1) Pending @ [Fulfilled v] \<and>
            timers (advance S opts T (snd (simulate S opts trs w))) = []) \<and>
         (\<forall>tr v. 0 < at (hd trs) \<and> at (last trs) \<le> at tr \<and>
                 at tr < at (last trs) + DEBOUNCE_MS \<and>
                 MAX_WAIT_MS \<le> at tr - at (hd trs) \<and>
                 fst (rebuild S opts (trigger_reason tr) (trigger_modules tr) w) = Inr v \<longrightarrow>
            promises (snd (simulate S opts (trs @ [tr]) w))
              = promises w @ replicate (length trs) Pending @ [Fulfilled v] \<and>
            timers (snd (simulate S opts (trs @ [tr]) w)) = [])"
proof (intro conjI allI impI)
  note win = coalesced_window [OF assms]
  from simulate_window [OF win(1) order_refl win(2), of S opts]
  show "fst (simulate S opts trs w)
           = [length (promises w) ..< length (promises w) + length trs]"
    by blast
next
  fix T v
  assume a: "at (last trs) + DEBOUNCE_MS \<le> T \<and>
             fst (rebuild S opts (trigger_reason (last trs)) (trigger_modules (last trs)) w)
               = Inr v"
  then have late: "at (last trs) + DEBOUNCE_MS \<le> T" by simp
  obtain r f es where
    rb: "rebuild S opts (trigger_reason (last trs)) (trigger_modules (last trs)) w
         = (r, host_effect w f es)"
    and tm: "timers (advance S opts T (snd (simulate S opts trs w))) = []"
    and pr: "promises (advance S opts T (snd (simulate S opts trs w)))
           = promises w @ replicate (length trs - 1) Pending @
             [case r of Inl e \<Rightarrow> Pending | Inr v \<Rightarrow> Fulfilled v]"
    by (rule burst_outcome [OF assms late, of S opts]) blast
  from rb a have "r = Inr v" by simp
  with pr show "promises (advance S opts T (snd (simulate S opts trs w)))
           = promises w @ replicate (length trs - 1) Pending @ [Fulfilled v]"
    by simp
  from tm show "timers (advance S opts T (snd (simulate S opts trs w))) = []" .
next
  fix tr :: trigger and v
  assume a: "0 < at (hd trs) \<and> at (last trs) \<le> at tr \<and>
                 at tr < at (last trs) + DEBOUNCE_MS \<and>
                 MAX_WAIT_MS \<le> at tr - at (hd trs) \<and>
                 fst (rebuild S opts (trigger_reason tr) (trigger_modules tr) w) = Inr v"
  then have h: "0 < at (hd trs)" "at tr < at (last trs) + DEBOUNCE_MS"
    "MAX_WAIT_MS \<le> at tr - at (hd trs)" by simp_all
  from window_closed_by_max_wait(1) [OF assms h, of S opts] a
  show "promises (snd (simulate S opts (trs @ [tr]) w))
              = promises w @ replicate (length trs) Pending @ [Fulfilled v]"
    by (simp add: settled_def)
  from window_closed_by_max_wait(2) [OF assms h, of S opts]
  show "timers (snd (simulate S opts (trs @ [tr]) w)) = []" .
qed

theorem debounce_last_caller_resolves_witness:
  "idle demo_wired \<and>
   coalesced [demo_trigger 1000, demo_trigger 1250, demo_trigger 1500] \<and>
   at (last [demo_trigger 1000, demo_trigger 1250, demo_trigger 1500]) + DEBOUNCE_MS \<le> 1800 \<and>
   DEBOUNCE_MS \<le> at (last [demo_trigger 1000, demo_trigger 1250, demo_trigger 1500])
                 - at (hd [demo_trigger 1000, demo_trigger 1250, demo_trigger 1500]) \<and>
   fst (rebuild demo_stringify demo_options
          (trigger_reason (last [demo_trigger 1000, demo_trigger 1250, demo_trigger 1500]))
          (trigger_modules (last [demo_trigger 1000, demo_trigger 1250, demo_trigger 1500]))
          demo_wired)
     = Inr \<lparr>modules = [demo_module_virtual], grouped = demo_canonical,
            jsonText = demo_stringify demo_canonical\<rparr> \<and>
   fst (simulate demo_stringify demo_options
          [demo_trigger 1000, demo_trigger 1250, demo_trigger 1500] demo_wired) = [0, 1, 2] \<and>
   promises (advance demo_stringify demo_options 1800
      (snd (simulate demo_stringify demo_options
              [demo_trigger 1000, demo_trigger 1250, demo_trigger 1500] demo_wired)))
     = [Pending, Pending,
        Fulfilled \<lparr>modules = [demo_module_virtual], grouped = demo_canonical,
                   jsonText = demo_stringify demo_canonical\<rparr>] \<and>
   timers (advance demo_stringify demo_options 1800
      (snd (simulate demo_stringify demo_options
              [demo_trigger 1000, demo_trigger 1250, demo_trigger 1500] demo_wired))) = [] \<and>
   coalesced (map demo_trigger [1000, 1250, 1500, 1750, 2000, 2250, 2500, 2750]) \<and>
   0 < at (hd (map demo_trigger [1000, 1250, 1500, 1750, 2000, 2250, 2500, 2750])) \<and>
   at (last (map demo_trigger [1000, 1250, 1500, 1750, 2000, 2250, 2500, 2750]))
     \<le> at (demo_trigger 3000) \<and>
   at (demo_trigger 3000)
     < at (last (map demo_trigger [1000, 1250, 1500, 1750, 2000, 2250, 2500, 2750]))
       + DEBOUNCE_MS \<and>
   MAX_WAIT_MS \<le> at (demo_trigger 3000)
     - at (hd (map demo_trigger [1000, 1250, 1500, 1750, 2000, 2250, 2500, 2750])) \<and>
   fst (rebuild demo_stringify demo_options (trigger_reason (demo_trigger 3000))
          (trigger_modules (demo_trigger 3000)) demo_wired)
     = Inr \<lparr>modules = [demo_module_virtual], grouped = demo_canonical,
            jsonText = demo_stringify demo_canonical\<rparr> \<and>
   promises (snd (simulate demo_stringify demo_options
                    (map demo_trigger [1000, 1250, 1500, 1750, 2000, 2250, 2500, 2750]
                     @ [demo_trigger 3000]) demo_wired))
     = [Pending, Pending, Pending, Pending, Pending, Pending, Pending, Pending,
        Fulfilled \<lparr>modules = [demo_module_virtual], grouped = demo_canonical,
                   jsonText = demo_stringify demo_canonical\<rparr>] \<and>
   timers (snd (simulate demo_stringify demo_options
                  (map demo_trigger [1000, 1250, 1500, 1750, 2000, 2250, 2500, 2750]
                   @ [demo_trigger 3000]) demo_wired)) = []"
proof -
  let ?trs = "[demo_trigger 1000, demo_trigger 1250, demo_trigger 1500]"
  let ?long = "map demo_trigger [1000, 1250, 1500, 1750, 2000, 2250, 2500, 2750]"
  let ?v = "\<lparr>modules = [demo_module_virtual], grouped = demo_canonical,
            jsonText = demo_stringify demo_canonical\<rparr>"
  have c: "coalesced ?trs" "at (last ?trs) + DEBOUNCE_MS \<le> 1800"
    "DEBOUNCE_MS \<le> at (last ?trs) - at (hd ?trs)"
    by (simp_all add: coalesced_def demo_trigger_def DEBOUNCE_MS_def MAX_WAIT_MS_def)
  have d: "coalesced ?long" "0 < at (hd ?long)" "at (last ?long) \<le> at (demo_trigger 3000)"
    "at (demo_trigger 3000) < at (last ?long) + DEBOUNCE_MS"
    "MAX_WAIT_MS \<le> at (demo_trigger 3000) - at (hd ?long)"
    by (simp_all add: coalesced_def demo_trigger_def DEBOUNCE_MS_def MAX_WAIT_MS_def)
  have t: "trigger_reason (demo_trigger n) = ''change''"
    "trigger_modules (demo_trigger n) = [demo_module_virtual]" for n
    by (simp_all add: demo_trigger_def)
  have r: "fst (rebuild demo_stringify demo_options (trigger_reason (last ?trs))
                  (trigger_modules (last ?trs)) demo_wired) = Inr ?v"
    by (simp add: t demo_rebuild_wired [OF demo_same_inputs])
  have r': "fst (rebuild demo_stringify demo_options (trigger_reason (demo_trigger 3000))
                  (trigger_modules (demo_trigger 3000)) demo_wired) = Inr ?v"
    by (simp add: t demo_rebuild_wired [OF demo_same_inputs])
  note a = debounce_last_caller_resolves [OF demo_idle(1) c(1), of demo_stringify demo_options]
  note b = debounce_last_caller_resolves [OF demo_idle(1) d(1), of demo_stringify demo_options]
  have 1: "fst (simulate demo_stringify demo_options ?trs demo_wired) = [0, 1, 2]"
    using a [THEN conjunct1] by (simp add: demo_idle upt_rec)
  note a2 = a [THEN conjunct2, THEN conjunct1, rule_format, OF conjI, OF c(2) r]
  have 2: "promises (advance demo_stringify demo_options 1800
      (snd (simulate demo_stringify demo_options ?trs demo_wired))) = [Pending, Pending, Fulfilled ?v]"
    using a2 [THEN conjunct1] by (simp add: demo_idle numeral_3_eq_3)
  have 3: "timers (advance demo_stringify demo_options 1800
      (snd (simulate demo_stringify demo_options ?trs demo_wired))) = []"
    by (rule a2 [THEN conjunct2])
  have e: "0 < at (hd ?long) \<and> at (last ?long) \<le> at (demo_trigger 3000) \<and>
           at (demo_trigger 3000) < at (last ?long) + DEBOUNCE_MS \<and>
           MAX_WAIT_MS \<le> at (demo_trigger 3000) - at (hd ?long) \<and>
           fst (rebuild demo_stringify demo_options (trigger_reason (demo_trigger 3000))
                  (trigger_modules (demo_trigger 3000)) demo_wired) = Inr ?v"
    by (intro conjI) (rule d r')+
  note b2 = b [THEN conjunct2, THEN conjunct2, rule_format, OF e]
  have 4: "promises (snd (simulate demo_stringify demo_options (?long @ [demo_trigger 3000])
                            demo_wired))
     = [Pending, Pending, Pending, Pending, Pending, Pending, Pending, Pending, Fulfilled ?v]"
    using b2 [THEN conjunct1] by (simp add: demo_idle eval_nat_numeral)
  have 5: "timers (snd (simulate demo_stringify demo_options (?long @ [demo_trigger 3000])
                          demo_wired)) = []"
    by (rule b2 [THEN conjunct2])
  show ?thesis
    by (intro conjI) (rule demo_idle(1) c d r r' 1 2 3 4 5)+
qed

text \<open>
  C6 holds on two of the three paths and fails on the third. An error thrown by a
  collaborator leaves \<^verbatim>\<open>rebuild\<close> as that error, and on the max-wait path \<^verbatim>\<open>debouncedRebuild\<close>
  hands it on. On the timer path the promise was created with a \<^verbatim>\<open>resolve\<close> function
  only: when the pipeline throws inside the timer callback, the error is an unhandled
  rejection of the callback and the caller's promise stays pending. Here \<^verbatim>\<open>readAndGroup\<close>
  throws, one caller waits, and the timer has fired.
\<close>

theorem debounced_error_not_delivered:
  "fst (rebuild demo_stringify demo_options_failing ''change'' [demo_module_virtual] demo_wired)
     = Inl (JsError ''ENOENT'') \<and>
   fst (simulate demo_stringify demo_options_failing [demo_trigger 1000] demo_wired) = [0] \<and>
   promises (advance demo_stringify demo_options_failing 1300
      (snd (simulate demo_stringify demo_options_failing [demo_trigger 1000] demo_wired)))
     = [Pending] \<and>
   trace (advance demo_stringify demo_options_failing 1300
      (snd (simulate demo_stringify demo_options_failing [demo_trigger 1000] demo_wired)))
     = [ReadAndGroup, UnhandledRejection (JsError ''ENOENT'')] \<and>
   timers (advance demo_stringify demo_options_failing 1300
      (snd (simulate demo_stringify demo_options_failing [demo_trigger 1000] demo_wired))) = []"
proof -
  let ?trs = "[demo_trigger 1000]"
  have b: "coalesced ?trs" "at (last ?trs) + DEBOUNCE_MS \<le> 1300"
    "trigger_reason (last ?trs) = ''change''" "trigger_modules (last ?trs) = [demo_module_virtual]"
    by (simp_all add: coalesced_def demo_trigger_def DEBOUNCE_MS_def)
  note win = coalesced_window [OF demo_idle(1) b(1)]
  from simulate_window [OF win(1) order_refl win(2), of demo_stringify demo_options_failing]
  have ps: "fst (simulate demo_stringify demo_options_failing ?trs demo_wired) = [0]"
    by (simp add: demo_idle)
  obtain r f es where
    rb: "rebuild demo_stringify demo_options_failing (trigger_reason (last ?trs))
           (trigger_modules (last ?trs)) demo_wired
         = (r, host_effect demo_wired f es)"
    and tm: "timers (advance demo_stringify demo_options_failing 1300
               (snd (simulate demo_stringify demo_options_failing ?trs demo_wired))) = []"
    and tr: "trace (advance demo_stringify demo_options_failing 1300
               (snd (simulate demo_stringify demo_options_failing ?trs demo_wired)))
           = trace demo_wired @ es @
             (case r of Inl e \<Rightarrow> [UnhandledRejection e] | Inr v \<Rightarrow> [])"
    and pr: "promises (advance demo_stringify demo_options_failing 1300
               (snd (simulate demo_stringify demo_options_failing ?trs demo_wired)))
           = promises demo_wired @ replicate (length ?trs - 1) Pending @
             [case r of Inl e \<Rightarrow> Pending | Inr v \<Rightarrow> Fulfilled v]"
    by (rule burst_outcome [OF demo_idle(1) b(1,2), of demo_stringify demo_options_failing])
       blast
  from rb have eq: "(Inl (JsError ''ENOENT''), host_effect demo_wired 1 [ReadAndGroup])
      = (r, host_effect demo_wired f es)"
    by (simp only: b(3,4) demo_rebuild_failing [OF demo_same_inputs])
  then have r: "r = Inl (JsError ''ENOENT'')" by simp
  from eq have "trace (host_effect demo_wired 1 [ReadAndGroup])
      = trace (host_effect demo_wired f es)"
    by (simp only: prod.inject)
  then have es: "es = [ReadAndGroup]" by (simp add: demo_idle)
  from pr r have p: "promises (advance demo_stringify demo_options_failing 1300
               (snd (simulate demo_stringify demo_options_failing ?trs demo_wired))) = [Pending]"
    by (simp add: demo_idle)
  from tr r es have t: "trace (advance demo_stringify demo_options_failing 1300
               (snd (simulate demo_stringify demo_options_failing ?trs demo_wired)))
           = [ReadAndGroup, UnhandledRejection (JsError ''ENOENT'')]"
    by (simp add: demo_idle)
  have "fst (rebuild demo_stringify demo_options_failing ''change'' [demo_module_virtual] demo_wired)
     = Inl (JsError ''ENOENT'')"
    by (simp add: demo_rebuild_failing [OF demo_same_inputs])
  with ps p t tm show ?thesis by blast
qed


end
